theory Spec2Isabelle
  imports Complex_Main
begin

section \<open>Thrown values and the retry helper (utils/retry)\<close>

text \<open>
  A value thrown by a JavaScript operation is either an \<open>Error\<close> object (with its
  message) or some other value (kept as its \<open>String(...)\<close> rendering).
\<close>

datatype js_exn = JsError string | JsThrown string

text \<open>\<^verbatim>\<open>error instanceof Error ? error : new Error(String(error))\<close>\<close>

definition toError :: "js_exn \<Rightarrow> js_exn" where
  "toError e = (case e of JsError m \<Rightarrow> JsError m | JsThrown s \<Rightarrow> JsError s)"

text \<open>\<^verbatim>\<open>error instanceof Error ? error.message : String(error)\<close>\<close>

definition exnMessage :: "js_exn \<Rightarrow> string" where
  "exnMessage e = (case e of JsError m \<Rightarrow> m | JsThrown s \<Rightarrow> s)"

text \<open>
  What the helper does to the outside world, in order. The logger is a sink; each of its
  lines is kept with the values interpolated into it rather than as rendered text:
  \<^item> \<open>LogAttempt a m name\<close> is the debug line \<open>Attempt a/m for name\<close>, written
    immediately before the operation is invoked for the \<open>a\<close>-th time;
  \<^item> \<open>LogRetry name a m d msg\<close> is the warning
    \<open>name failed (attempt a/m), retrying in d ms\<close> with the error message;
  \<^item> \<open>Sleep d\<close> is \<open>await sleep(d)\<close>;
  \<^item> \<open>LogExhausted name m msg\<close> is the error line \<open>name failed after m attempts\<close>.
\<close>

datatype event =
    LogAttempt nat int string
  | LogRetry string nat int nat string
  | Sleep nat
  | LogExhausted string int string

text \<open>
  The operation \<open>fn\<close> takes no argument and may answer differently each time it is
  called. In one run it is called at most once per attempt number, so it is given as the
  function from the attempt number (1, 2, ...) to the outcome of that call:
  \<open>Inl\<close> a thrown value, \<open>Inr\<close> the resolved value.

  The loop \<^verbatim>\<open>for (let attempt = 1; attempt <= maxRetries; attempt++)\<close> with its
  variables \<open>attempt\<close>, \<open>lastError\<close> and the events so far.
\<close>

function retryLoop ::
  "(nat \<Rightarrow> js_exn + 'a) \<Rightarrow> string \<Rightarrow> int \<Rightarrow> nat \<Rightarrow> js_exn \<Rightarrow> event list
     \<Rightarrow> (js_exn + 'a) \<times> event list" where
  "retryLoop fn name maxRetries attempt lastError evs =
     (if int attempt \<le> maxRetries then
        (case fn attempt of
           Inr v \<Rightarrow> (Inr v, evs @ [LogAttempt attempt maxRetries name])
         | Inl error \<Rightarrow>
             (if int attempt < maxRetries then
                retryLoop fn name maxRetries (attempt + 1) (toError error)
                  (evs @ [LogAttempt attempt maxRetries name,
                          LogRetry name attempt maxRetries (2 ^ (attempt - 1) * 1000)
                            (exnMessage (toError error)),
                          Sleep (2 ^ (attempt - 1) * 1000)])
              else
                retryLoop fn name maxRetries (attempt + 1) (toError error)
                  (evs @ [LogAttempt attempt maxRetries name,
                          LogExhausted name maxRetries (exnMessage (toError error))])))
      else (Inl lastError, evs))"
  by pat_completeness auto
termination
  by (relation "measure (\<lambda>(fn, name, maxRetries, attempt, lastError, evs).
                   nat (maxRetries + 1 - int attempt))") auto

declare retryLoop.simps [simp del]

definition retryWithBackoff ::
  "(nat \<Rightarrow> js_exn + 'a) \<Rightarrow> string \<Rightarrow> int \<Rightarrow> (js_exn + 'a) \<times> event list" where
  "retryWithBackoff fn name maxRetries =
     retryLoop fn name maxRetries 1 (JsError ''Unknown error'') []"

text \<open>Reading a trace: the attempts made and the sleeps taken.\<close>

fun invocations :: "event list \<Rightarrow> nat list" where
  "invocations [] = []"
| "invocations (LogAttempt a m n # es) = a # invocations es"
| "invocations (e # es) = invocations es"

fun sleeps :: "event list \<Rightarrow> nat list" where
  "sleeps [] = []"
| "sleeps (Sleep d # es) = d # sleeps es"
| "sleeps (e # es) = sleeps es"

text \<open>The events of one failed attempt that is followed by a retry.\<close>

definition failedAttempt :: "(nat \<Rightarrow> js_exn + 'a) \<Rightarrow> string \<Rightarrow> int \<Rightarrow> nat \<Rightarrow> event list" where
  "failedAttempt fn name maxRetries a =
     [LogAttempt a maxRetries name,
      LogRetry name a maxRetries (2 ^ (a - 1) * 1000)
        (case fn a of Inl e \<Rightarrow> exnMessage (toError e) | Inr v \<Rightarrow> []),
      Sleep (2 ^ (a - 1) * 1000)]"


section \<open>Strings and numbers of the host language\<close>

text \<open>
  Strings are lists of 8-bit characters; the functions below are the ASCII behaviour of
  the JavaScript string methods the program calls. A non-negative integer counter (a
  batch number, a page number, a list length) is rendered by \<open>showNat\<close>, as a
  template literal renders it.
\<close>

definition digitChar :: "nat \<Rightarrow> char" where
  "digitChar d = ''0123456789'' ! d"

fun showNat :: "nat \<Rightarrow> string" where
  "showNat n = (if n < 10 then [digitChar n] else showNat (n div 10) @ [digitChar (n mod 10)])"

declare showNat.simps [simp del]

text \<open>\<^verbatim>\<open>xs.join(sep)\<close>\<close>

fun join :: "string \<Rightarrow> string list \<Rightarrow> string" where
  "join sep [] = []"
| "join sep [x] = x"
| "join sep (x # y # ys) = x @ sep @ join sep (y # ys)"

text \<open>\<^verbatim>\<open>s.split(c)\<close> for a one-character separator; the result is never empty.\<close>

fun splitOn :: "char \<Rightarrow> string \<Rightarrow> string list" where
  "splitOn c [] = [[]]"
| "splitOn c (x # xs) =
     (if x = c then [] # splitOn c xs
      else (case splitOn c xs of [] \<Rightarrow> [[x]] | t # ts \<Rightarrow> (x # t) # ts))"

text \<open>\<^verbatim>\<open>s.trim()\<close>: tab, line feed, vertical tab, form feed, carriage return, space.\<close>

definition isSpace :: "char \<Rightarrow> bool" where
  "isSpace c = (c \<in> set [CHR 0x09, CHR 0x0A, CHR 0x0B, CHR 0x0C, CHR 0x0D, CHR '' ''])"

definition trim :: "string \<Rightarrow> string" where
  "trim s = rev (dropWhile isSpace (rev (dropWhile isSpace s)))"

text \<open>\<^verbatim>\<open>s.toLowerCase()\<close>\<close>

definition lowerChar :: "char \<Rightarrow> char" where
  "lowerChar c =
     (case map_of (zip ''ABCDEFGHIJKLMNOPQRSTUVWXYZ'' ''abcdefghijklmnopqrstuvwxyz'') c of
        Some d \<Rightarrow> d | None \<Rightarrow> c)"

definition toLowerCase :: "string \<Rightarrow> string" where
  "toLowerCase s = map lowerChar s"

text \<open>\<^verbatim>\<open>s.startsWith(p)\<close>, used for the anchored patterns \<open>/^.../\<close>.\<close>

definition startsWith :: "string \<Rightarrow> string \<Rightarrow> bool" where
  "startsWith s p = (take (length p) s = p)"

text \<open>
  A JavaScript number: not-a-number, an infinity, or a finite value. Finite values are
  kept as exact rationals, and arithmetic on them is exact: the rounding of IEEE doubles
  is not modelled.
\<close>

datatype js_number = NaN | NegInf | Fin rat | PosInf

definition isNaN :: "js_number \<Rightarrow> bool" where
  "isNaN n = (n = NaN)"

text \<open>\<^verbatim>\<open>n >= 0\<close> and \<^verbatim>\<open>n > 0\<close>; every comparison with NaN is false.\<close>

definition geZero :: "js_number \<Rightarrow> bool" where
  "geZero n = (case n of NaN \<Rightarrow> False | NegInf \<Rightarrow> False | Fin r \<Rightarrow> 0 \<le> r | PosInf \<Rightarrow> True)"

definition gtZero :: "js_number \<Rightarrow> bool" where
  "gtZero n = (case n of NaN \<Rightarrow> False | NegInf \<Rightarrow> False | Fin r \<Rightarrow> 0 < r | PosInf \<Rightarrow> True)"

text \<open>\<^verbatim>\<open>Number.isInteger(n)\<close>\<close>

definition isInteger :: "js_number \<Rightarrow> bool" where
  "isInteger n = (case n of Fin r \<Rightarrow> of_int \<lfloor>r\<rfloor> = r | _ \<Rightarrow> False)"

text \<open>
  \<^verbatim>\<open>n / c\<close> and \<^verbatim>\<open>n * c\<close> for a finite constant \<open>c > 0\<close>.
\<close>

definition divBy :: "js_number \<Rightarrow> rat \<Rightarrow> js_number" where
  "divBy n c = (case n of Fin r \<Rightarrow> Fin (r / c) | other \<Rightarrow> other)"

definition mulBy :: "js_number \<Rightarrow> rat \<Rightarrow> js_number" where
  "mulBy n c = (case n of Fin r \<Rightarrow> Fin (r * c) | other \<Rightarrow> other)"

text \<open>
  Truthiness of an optional number (\<open>None\<close>: \<open>undefined\<close> or \<open>null\<close>) and of an
  optional string, and \<^verbatim>\<open>s || null\<close> on an optional string.
\<close>

definition truthyNum :: "js_number option \<Rightarrow> bool" where
  "truthyNum x = (case x of None \<Rightarrow> False | Some n \<Rightarrow> n \<noteq> NaN \<and> n \<noteq> Fin 0)"

definition truthyStr :: "string option \<Rightarrow> bool" where
  "truthyStr x = (case x of None \<Rightarrow> False | Some s \<Rightarrow> s \<noteq> [])"

definition orNull :: "string option \<Rightarrow> string option" where
  "orNull x = (if truthyStr x then x else None)"

definition orElse :: "string option \<Rightarrow> string \<Rightarrow> string" where
  "orElse x d = (case x of None \<Rightarrow> d | Some s \<Rightarrow> if s = [] then d else s)"

text \<open>A value of unknown type, as the validators receive it.\<close>

datatype js_value = JUndefined | JNull | JBool bool | JNum js_number | JStr string

text \<open>
  The built-in conversions between strings and numbers are not part of the program; the
  program is modelled for any behaviour of them.
\<close>

record js_builtins =
  parseFloat :: "string \<Rightarrow> js_number"
  parseInt10 :: "string \<Rightarrow> js_number"
  numberToString :: "js_number \<Rightarrow> string"
  stringToNumber :: "string \<Rightarrow> js_number"

text \<open>\<^verbatim>\<open>String(v)\<close>, also what a template literal inserts.\<close>

definition jsString :: "js_builtins \<Rightarrow> js_value \<Rightarrow> string" where
  "jsString B v =
     (case v of JUndefined \<Rightarrow> ''undefined'' | JNull \<Rightarrow> ''null''
      | JBool b \<Rightarrow> (if b then ''true'' else ''false'')
      | JNum n \<Rightarrow> numberToString B n | JStr s \<Rightarrow> s)"

section \<open>Validators (utils/validators)\<close>

text \<open>
  The pattern \<^verbatim>\<open>/^([a-z0-9]([a-z0-9-]*[a-z0-9])?\.)+[a-z]{2,}$/i\<close>: the text splits at
  its dots into one or more labels and a last part; a label is non-empty, made of
  letters, digits and hyphens, and neither starts nor ends with a hyphen; the last part
  is two or more letters.
\<close>

definition isLetter :: "char \<Rightarrow> bool" where
  "isLetter c =
     (c \<in> set ''abcdefghijklmnopqrstuvwxyzABCDEFGHIJKLMNOPQRSTUVWXYZ'')"

definition isAlnum :: "char \<Rightarrow> bool" where
  "isAlnum c = (isLetter c \<or> c \<in> set ''0123456789'')"

definition validLabel :: "string \<Rightarrow> bool" where
  "validLabel l =
     (case l of [] \<Rightarrow> False
      | c # cs \<Rightarrow> isAlnum c \<and> isAlnum (last (c # cs))
                 \<and> list_all (\<lambda>d. isAlnum d \<or> d = CHR ''-'') (c # cs))"

definition isValidDomain :: "string \<Rightarrow> bool" where
  "isValidDomain domain =
     (let parts = splitOn CHR ''.'' domain in
      2 \<le> length parts \<and> list_all validLabel (butlast parts)
      \<and> 2 \<le> length (last parts) \<and> list_all isLetter (last parts))"

definition isValidPrice :: "js_builtins \<Rightarrow> js_value \<Rightarrow> bool" where
  "isValidPrice B price =
     (case price of
        JStr s \<Rightarrow> (let num = parseFloat B s in \<not> isNaN num \<and> geZero num)
      | JNum n \<Rightarrow> (let num = parseFloat B (numberToString B n) in \<not> isNaN num \<and> geZero num)
      | _ \<Rightarrow> False)"

definition isValidInventory :: "js_builtins \<Rightarrow> js_value \<Rightarrow> bool" where
  "isValidInventory B quantity =
     (case quantity of
        JNum n \<Rightarrow> isInteger n \<and> geZero n
      | JStr s \<Rightarrow> (let num = parseInt10 B s in \<not> isNaN num \<and> geZero num)
      | _ \<Rightarrow> False)"

section \<open>Domain normalizer\<close>

text \<open>
  Each step of \<open>normalizeDomain\<close>, in the order of the source: the protocol pattern
  \<^verbatim>\<open>/^(https?:\/\/)/\<close>, the leading slashes \<^verbatim>\<open>/^\/+/\<close>, the first piece before a
  \<open>/\<close>, the first piece before a \<open>:\<close>, the pattern \<^verbatim>\<open>/^www\./\<close>, lower case, trim,
  and the validation, which throws.
\<close>

definition stripProtocol :: "string \<Rightarrow> string" where
  "stripProtocol s =
     (if startsWith s ''https://'' then drop 8 s
      else if startsWith s ''http://'' then drop 7 s else s)"

definition stripWww :: "string \<Rightarrow> string" where
  "stripWww s = (if startsWith s ''www.'' then drop 4 s else s)"

definition normalizeDomain :: "string \<Rightarrow> js_exn + string" where
  "normalizeDomain input =
     (let normalized = stripProtocol input;
          normalized = dropWhile (\<lambda>c. c = CHR ''/'') normalized;
          normalized = hd (splitOn CHR ''/'' normalized);
          normalized = hd (splitOn CHR '':'' normalized);
          normalized = stripWww normalized;
          normalized = toLowerCase normalized;
          normalized = trim normalized
      in if \<not> isValidDomain normalized
         then Inl (JsError (''Invalid domain format: '' @ normalized))
         else Inr normalized)"


section \<open>Source and destination records (types)\<close>

text \<open>
  The fields the program reads or writes, with the declared types. A field that may be
  missing or \<open>null\<close> in the feed is an \<open>option\<close>. Field names carry the record's
  prefix: \<open>sv_\<close> a source variant, \<open>sp_\<close> a source product, \<open>cp_\<close> a mapped
  product, \<open>cv_\<close> a mapped variant. The price and the inventory quantity go to the
  validators, which take a value of unknown type.
\<close>

record shopify_variant =
  sv_id :: "js_number option"
  sv_product_id :: "js_number option"
  sv_title :: "string option"
  sv_price :: js_value
  sv_sku :: "string option"
  sv_position :: "js_number option"
  sv_inventory_policy :: "string option"
  sv_compare_at_price :: "string option"
  sv_option1 :: "string option"
  sv_option2 :: "string option"
  sv_option3 :: "string option"
  sv_weight :: "js_number option"
  sv_weight_unit :: "string option"
  sv_inventory_item_id :: "js_number option"
  sv_inventory_quantity :: js_value
  sv_requires_shipping :: "bool option"
  sv_tracked :: "bool option"
  sv_available :: "bool option"

record shopify_seo =
  seo_title :: "string option"
  seo_description :: "string option"

text \<open>
  \<open>sp_tags\<close> is \<open>Some s\<close> when the feed gives a string, \<open>None\<close> otherwise;
  \<open>sp_images\<close> holds the \<open>src\<close> of each image; \<open>sp_variants\<close> is \<open>Some\<close> when
  the feed gives an array.
\<close>

record shopify_product =
  sp_id :: "js_number option"
  sp_title :: "string option"
  sp_handle :: "string option"
  sp_body_html :: "string option"
  sp_vendor :: "string option"
  sp_product_type :: "string option"
  sp_tags :: "string option"
  sp_status :: "string option"
  sp_images :: "string list option"
  sp_variants :: "shopify_variant list option"
  sp_seo :: "shopify_seo option"

record clore_product =
  cp_shopify_id :: string
  cp_title :: string
  cp_handle :: "string option"
  cp_description :: "string option"
  cp_product_type :: "string option"
  cp_vendor :: "string option"
  cp_images :: "string list"
  cp_tags :: "string list option"
  cp_status :: string
  cp_seo_title :: "string option"
  cp_seo_description :: "string option"
  cp_category :: "string option"
  cp_gender :: "string option"

record clore_variant =
  cv_shopify_variant_id :: string
  cv_shopify_product_id :: string
  cv_shopify_inventory_item_id :: "string option"
  cv_title :: string
  cv_sku :: "string option"
  cv_position :: js_number
  cv_price :: string
  cv_compare_at_price :: "string option"
  cv_cost_price :: "string option"
  cv_inventory_quantity :: js_number
  cv_inventory_tracked :: bool
  cv_inventory_policy :: string
  cv_weight :: "js_number option"
  cv_weight_unit :: string
  cv_requires_shipping :: bool
  cv_option1 :: "string option"
  cv_option2 :: "string option"
  cv_option3 :: "string option"
  cv_available :: bool
  cv_currency :: string

record scraped_store_input =
  st_display_name :: string
  st_store_handle :: string
  st_shopify_store_url :: string
  st_default_currency :: "string option"
  st_supported_currencies :: "string list option"
  st_logo_url :: "string option"
  st_description :: "string option"

record scraped_store_data =
  store :: scraped_store_input
  products :: "clore_product list"
  product_variants :: "clore_variant list"

section \<open>Data mapper\<close>



text \<open>
  The weight of a variant in kilograms: the \<open>if\<close> chain of the source on the unit, inside
  the guard \<^verbatim>\<open>variant.weight && variant.weight > 0\<close>.
\<close>

definition convertWeight :: "js_number option \<Rightarrow> string option \<Rightarrow> js_number option" where
  "convertWeight weight weight_unit =
     (case weight of
        None \<Rightarrow> None
      | Some w \<Rightarrow>
          if truthyNum (Some w) \<and> gtZero w then
            (if weight_unit = Some ''g'' \<or> weight_unit = Some ''grams'' then Some (divBy w 1000)
             else if weight_unit = Some ''kg'' then Some w
             else if weight_unit = Some ''lb'' then Some (mulBy w 0.453592)
             else if weight_unit = Some ''oz'' then Some (mulBy w 0.0283495)
             else Some (divBy w 1000))
          else None)"

text \<open>\<^verbatim>\<open>Number(v)\<close> on a value the inventory validator accepted (a number or a string).\<close>

definition jsNumber :: "js_builtins \<Rightarrow> js_value \<Rightarrow> js_number" where
  "jsNumber B v =
     (case v of JNum n \<Rightarrow> n | JStr s \<Rightarrow> stringToNumber B s | JUndefined \<Rightarrow> NaN
      | JNull \<Rightarrow> Fin 0 | JBool b \<Rightarrow> (if b then Fin 1 else Fin 0))"

definition mapShopifyVariantToClore ::
  "js_builtins \<Rightarrow> shopify_variant \<Rightarrow> js_number \<Rightarrow> js_exn + clore_variant" where
  "mapShopifyVariantToClore B variant shopifyProductId =
     (let errors = (if \<not> truthyNum (sv_id variant) then [''Missing variant ID''] else [])
                 @ (if \<not> truthyStr (sv_title variant) then [''Missing variant title''] else [])
                 @ (if \<not> isValidPrice B (sv_price variant)
                    then [''Invalid price: '' @ jsString B (sv_price variant)] else [])
      in if 0 < length errors
         then Inl (JsError (''Invalid variant: '' @ join '', '' errors))
         else
           (let inventoryQuantity =
                  (if isValidInventory B (sv_inventory_quantity variant)
                   then jsNumber B (sv_inventory_quantity variant) else Fin 0);
                price = jsString B (sv_price variant);
                compareAtPrice = orNull (sv_compare_at_price variant);
                weight = convertWeight (sv_weight variant) (sv_weight_unit variant)
            in Inr \<lparr>
              cv_shopify_variant_id =
                numberToString B (case sv_id variant of Some n \<Rightarrow> n | None \<Rightarrow> NaN),
              cv_shopify_product_id = numberToString B shopifyProductId,
              cv_shopify_inventory_item_id =
                (if truthyNum (sv_inventory_item_id variant)
                 then map_option (numberToString B) (sv_inventory_item_id variant) else None),
              cv_title = orElse (sv_title variant) [],
              cv_sku = orNull (sv_sku variant),
              cv_position =
                (if truthyNum (sv_position variant)
                 then (case sv_position variant of Some n \<Rightarrow> n | None \<Rightarrow> Fin 1) else Fin 1),
              cv_price = price,
              cv_compare_at_price = compareAtPrice,
              cv_cost_price = None,
              cv_inventory_quantity = inventoryQuantity,
              cv_inventory_tracked = (sv_tracked variant \<noteq> Some False),
              cv_inventory_policy = orElse (sv_inventory_policy variant) ''deny'',
              cv_weight = weight,
              cv_weight_unit = ''kg'',
              cv_requires_shipping = (sv_requires_shipping variant \<noteq> Some False),
              cv_option1 = orNull (sv_option1 variant),
              cv_option2 = orNull (sv_option2 variant),
              cv_option3 = orNull (sv_option3 variant),
              cv_available = (sv_available variant \<noteq> Some False),
              cv_currency = ''USD'' \<rparr>))"


section \<open>Paginated scraper\<close>

text \<open>
  The three accumulators of \<open>scrapeShopifyProducts\<close>; a failure is the pair of a
  title and an error message.
\<close>

record scrape_state =
  allProducts :: "shopify_product list"
  allVariants :: "shopify_variant list"
  failedProducts :: "(string \<times> string) list"

text \<open>The loop over the variants of an accepted product.\<close>

fun scanVariants :: "shopify_variant list \<Rightarrow> shopify_variant list \<Rightarrow> shopify_variant list" where
  "scanVariants [] acc = acc"
| "scanVariants (variant # rest) acc =
     (if \<not> truthyNum (sv_id variant) \<or> \<not> truthyStr (sv_title variant)
      then scanVariants rest acc
      else scanVariants rest (acc @ [variant]))"

text \<open>
  The loop over the products of a page. A product without a title throws before it is
  pushed; the handler records it under \<^verbatim>\<open>product.title || 'Unknown'\<close>.
\<close>

fun scanProducts :: "shopify_product list \<Rightarrow> scrape_state \<Rightarrow> scrape_state" where
  "scanProducts [] st = st"
| "scanProducts (product # rest) st =
     (if \<not> truthyStr (sp_title product)
      then scanProducts rest
             (st\<lparr>failedProducts := failedProducts st
                    @ [(orElse (sp_title product) ''Unknown'', ''Product missing title'')]\<rparr>)
      else scanProducts rest
             (st\<lparr>allProducts := allProducts st @ [product],
                  allVariants :=
                    (case sp_variants product of
                       Some vs \<Rightarrow> scanVariants vs (allVariants st)
                     | None \<Rightarrow> allVariants st)\<rparr>))"

definition pageLabel :: "nat \<Rightarrow> string \<Rightarrow> string" where
  "pageLabel page domain = ''Page '' @ showNat page @ '' of '' @ domain"

text \<open>
  The feed is given by \<open>get page attempt\<close>: the outcome of the \<open>attempt\<close>-th request
  for the page, \<open>Inl\<close> a thrown error or \<open>Inr\<close> the \<open>products\<close> field of the body
  (\<open>None\<close> when the body has none). \<open>maxRetries\<close> and \<open>rateLimitDelay\<close> are the two
  configured values.

  The \<open>while (hasMore)\<close> loop with its variables \<open>page\<close> and the accumulators; it
  returns when \<open>hasMore\<close> becomes false, and it need not return at all.
\<close>

partial_function (option) scrapeLoop ::
  "(nat \<Rightarrow> nat \<Rightarrow> js_exn + shopify_product list option) \<Rightarrow> string \<Rightarrow> int \<Rightarrow> nat
     \<Rightarrow> nat \<Rightarrow> scrape_state \<Rightarrow> event list \<Rightarrow> (nat \<times> scrape_state \<times> event list) option" where
  "scrapeLoop get domain maxRetries rateLimitDelay page st evs =
     (case retryWithBackoff (get page) (pageLabel page domain) maxRetries of
        (Inl error, ev) \<Rightarrow> Some (page, st, evs @ ev)
      | (Inr None, ev) \<Rightarrow> Some (page, st, evs @ ev)
      | (Inr (Some prods), ev) \<Rightarrow>
          if length prods = 0 then Some (page, st, evs @ ev)
          else scrapeLoop get domain maxRetries rateLimitDelay (page + 1)
                 (scanProducts prods st) (evs @ ev @ [Sleep rateLimitDelay]))"

declare scrapeLoop.simps [code]

record scraper_result =
  res_products :: "shopify_product list"
  res_variants :: "shopify_variant list"
  res_failedProducts :: "(string \<times> string) list"
  res_totalPages :: nat

definition scrapeShopifyProducts ::
  "(nat \<Rightarrow> nat \<Rightarrow> js_exn + shopify_product list option) \<Rightarrow> int \<Rightarrow> nat \<Rightarrow> string
     \<Rightarrow> (scraper_result \<times> event list) option" where
  "scrapeShopifyProducts get maxRetries rateLimitDelay domain =
     (case scrapeLoop get domain maxRetries rateLimitDelay 1
             \<lparr>allProducts = [], allVariants = [], failedProducts = []\<rparr> [] of
        None \<Rightarrow> None
      | Some (page, st, evs) \<Rightarrow>
          Some (\<lparr>res_products = allProducts st, res_variants = allVariants st,
                 res_failedProducts = failedProducts st, res_totalPages = page - 1\<rparr>, evs))"

text \<open>
  For stating what a run did: whether the fetch of a page ends the loop, and what the
  pages before it contribute.
\<close>

definition pageStops :: "(nat \<Rightarrow> nat \<Rightarrow> js_exn + shopify_product list option) \<Rightarrow> string \<Rightarrow> int \<Rightarrow> nat \<Rightarrow> bool" where
  "pageStops get domain maxRetries page =
     (case fst (retryWithBackoff (get page) (pageLabel page domain) maxRetries) of
        Inl error \<Rightarrow> True
      | Inr None \<Rightarrow> True
      | Inr (Some prods) \<Rightarrow> prods = [])"

definition pageProducts :: "(nat \<Rightarrow> nat \<Rightarrow> js_exn + shopify_product list option) \<Rightarrow> string \<Rightarrow> int \<Rightarrow> nat \<Rightarrow> shopify_product list" where
  "pageProducts get domain maxRetries page =
     (case fst (retryWithBackoff (get page) (pageLabel page domain) maxRetries) of
        Inr (Some prods) \<Rightarrow> prods
      | _ \<Rightarrow> [])"

definition pageEvents :: "(nat \<Rightarrow> nat \<Rightarrow> js_exn + shopify_product list option) \<Rightarrow> string \<Rightarrow> int \<Rightarrow> nat \<Rightarrow> event list" where
  "pageEvents get domain maxRetries page =
     snd (retryWithBackoff (get page) (pageLabel page domain) maxRetries)"

text \<open>
  What a page's products contribute to the three accumulators: the products with a
  title, the variants with an identifier and a title of those products, and one failure
  record for each product without a title.
\<close>

definition acceptedProducts :: "shopify_product list \<Rightarrow> shopify_product list" where
  "acceptedProducts ps = filter (\<lambda>p. truthyStr (sp_title p)) ps"

definition acceptedVariants :: "shopify_product list \<Rightarrow> shopify_variant list" where
  "acceptedVariants ps =
     concat (map (\<lambda>p. case sp_variants p of
                        None \<Rightarrow> []
                      | Some vs \<Rightarrow> filter (\<lambda>v. truthyNum (sv_id v) \<and> truthyStr (sv_title v)) vs)
                 (acceptedProducts ps))"

definition rejectedProducts :: "shopify_product list \<Rightarrow> (string \<times> string) list" where
  "rejectedProducts ps =
     map (\<lambda>p. (''Unknown'', ''Product missing title''))
         (filter (\<lambda>p. \<not> truthyStr (sp_title p)) ps)"

section \<open>Sync client\<close>

text \<open>
  The remote's answer to one mutation call: the messages of the GraphQL \<open>errors\<close>
  array when the body has one (an empty array too is truthy), and the mutation result
  \<open>data?.syncScrapedStoreAndProducts\<close> when present.
\<close>

record sync_mutation_result =
  mr_success :: bool
  mr_message :: string
  mr_storeId :: "string option"
  mr_productsCreated :: int
  mr_variantsCreated :: int
  mr_errors :: "string list option"

record sync_response =
  rs_errors :: "string list option"
  rs_mutation :: "sync_mutation_result option"

text \<open>The \<open>variables\<close> of one mutation call.\<close>

record sync_variables =
  var_store :: scraped_store_input
  var_products :: "clore_product list"
  var_variants :: "clore_variant list"

text \<open>
  The variables of the batch loop, with the variables of the calls handed to the retry
  helper so far (in order) and the events of the retry helper.
\<close>

record sync_acc =
  totalProductsCreated :: int
  totalVariantsCreated :: int
  allErrors :: "string list"
  storeId :: "string option"
  submitted :: "sync_variables list"
  syncEvents :: "event list"

definition BATCH_SIZE :: nat where
  "BATCH_SIZE = 20"

text \<open>\<^verbatim>\<open>xs.slice(i, j)\<close> for \<open>0 \<le> i\<close> and \<open>0 \<le> j\<close>.\<close>

definition slice :: "nat \<Rightarrow> nat \<Rightarrow> 'a list \<Rightarrow> 'a list" where
  "slice i j xs = take (j - i) (drop i xs)"

definition productBatchAt :: "scraped_store_data \<Rightarrow> nat \<Rightarrow> clore_product list" where
  "productBatchAt data i =
     slice i (min (i + BATCH_SIZE) (length (products data))) (products data)"

definition variantBatchFor :: "scraped_store_data \<Rightarrow> clore_product list \<Rightarrow> clore_variant list" where
  "variantBatchFor data productBatch =
     filter (\<lambda>v. list_ex (\<lambda>p. cp_shopify_id p = cv_shopify_product_id v) productBatch)
       (product_variants data)"

text \<open>What the loop body does with the response of batch \<open>batchNum\<close>.\<close>

definition handleBatchResponse :: "nat \<Rightarrow> sync_response \<Rightarrow> sync_acc \<Rightarrow> sync_acc" where
  "handleBatchResponse batchNum response acc =
     (case rs_errors response of
        Some msgs \<Rightarrow>
          acc\<lparr>allErrors := allErrors acc @ [''Batch '' @ showNat batchNum @ '': '' @ join '', '' msgs]\<rparr>
      | None \<Rightarrow>
          (case rs_mutation response of
             None \<Rightarrow>
               acc\<lparr>allErrors := allErrors acc
                      @ [''Batch '' @ showNat batchNum @ '': No mutation result'']\<rparr>
           | Some mutation \<Rightarrow>
               if \<not> mr_success mutation then
                 acc\<lparr>allErrors := allErrors acc
                        @ [''Batch '' @ showNat batchNum @ '': '' @ mr_message mutation]\<rparr>
               else
                 acc\<lparr>storeId := (if truthyStr (mr_storeId mutation) \<and> \<not> truthyStr (storeId acc)
                                  then mr_storeId mutation else storeId acc),
                     totalProductsCreated := totalProductsCreated acc + mr_productsCreated mutation,
                     totalVariantsCreated := totalVariantsCreated acc + mr_variantsCreated mutation,
                     allErrors := allErrors acc
                        @ (case mr_errors mutation of None \<Rightarrow> [] | Some errs \<Rightarrow> errs)\<rparr>))"

text \<open>
  The remote is given by \<open>post batchNum attempt\<close>: the outcome of the \<open>attempt\<close>-th
  request for batch \<open>batchNum\<close>. The loop
  \<^verbatim>\<open>for (let i = 0; i < totalProducts; i += BATCH_SIZE)\<close>; an error that leaves the
  retry helper leaves the loop (\<open>Inl\<close>, with the loop's variables at that moment).
\<close>

function syncLoop ::
  "(nat \<Rightarrow> nat \<Rightarrow> js_exn + sync_response) \<Rightarrow> int \<Rightarrow> scraped_store_data \<Rightarrow> nat \<Rightarrow> sync_acc
     \<Rightarrow> (js_exn \<times> sync_acc) + sync_acc" where
  "syncLoop post maxRetries data i acc =
     (if i < length (products data) then
        (let productBatch = productBatchAt data i;
             variantBatch = variantBatchFor data productBatch;
             batchNum = i div BATCH_SIZE + 1;
             sent = \<lparr>var_store = store data, var_products = productBatch,
                     var_variants = variantBatch\<rparr>
         in case retryWithBackoff (post batchNum)
                   (''GraphQL sync batch '' @ showNat batchNum) maxRetries of
              (Inl error, ev) \<Rightarrow>
                Inl (error, acc\<lparr>submitted := submitted acc @ [sent],
                                syncEvents := syncEvents acc @ ev\<rparr>)
            | (Inr response, ev) \<Rightarrow>
                syncLoop post maxRetries data (i + BATCH_SIZE)
                  (handleBatchResponse batchNum response
                     (acc\<lparr>submitted := submitted acc @ [sent],
                          syncEvents := syncEvents acc @ ev\<rparr>)))
      else Inr acc)"
  by pat_completeness auto
termination
  by (relation "measure (\<lambda>(post, maxRetries, data, i, acc). length (products data) - i)")
     (auto simp: BATCH_SIZE_def)

declare syncLoop.simps [simp del]

record sync_result =
  success :: bool
  message :: string
  result :: "sync_mutation_result option"

definition initialSyncAcc :: sync_acc where
  "initialSyncAcc =
     \<lparr>totalProductsCreated = 0, totalVariantsCreated = 0, allErrors = [], storeId = None,
      submitted = [], syncEvents = []\<rparr>"

text \<open>
  The function returns the \<open>sync_result\<close>; the loop's variables when it ended come
  with it, for stating what the run did.
\<close>

definition syncScrapedStoreAndProducts ::
  "(nat \<Rightarrow> nat \<Rightarrow> js_exn + sync_response) \<Rightarrow> int \<Rightarrow> string \<Rightarrow> scraped_store_data
     \<Rightarrow> sync_result \<times> sync_acc" where
  "syncScrapedStoreAndProducts post maxRetries token data =
     (case syncLoop post maxRetries data 0 initialSyncAcc of
        Inr acc \<Rightarrow>
          (let overallSuccess = (length (allErrors acc) = 0) in
           (\<lparr>success = overallSuccess,
             message = (if overallSuccess then ''All batches synced successfully''
                        else ''Sync completed with '' @ showNat (length (allErrors acc)) @ '' errors''),
             result = Some \<lparr>
               mr_success = overallSuccess,
               mr_message = (if overallSuccess then ''Sync successful''
                             else ''Sync completed with errors''),
               mr_storeId = storeId acc,
               mr_productsCreated = totalProductsCreated acc,
               mr_variantsCreated = totalVariantsCreated acc,
               mr_errors = Some (allErrors acc)\<rparr>\<rparr>, acc))
      | Inl (error, acc) \<Rightarrow>
          (\<lparr>success = False, message = ''Sync error: '' @ exnMessage error, result = None\<rparr>,
           acc))"

text \<open>
  For stating the aggregate: the error strings one batch response contributes, in the
  words of the specification (a GraphQL error, a missing mutation result, an
  unsuccessful mutation, or the errors a successful mutation reports).
\<close>

definition batchErrorStrings :: "nat \<Rightarrow> sync_response \<Rightarrow> string list" where
  "batchErrorStrings batchNum response =
     (case rs_errors response of
        Some msgs \<Rightarrow> [''Batch '' @ showNat batchNum @ '': '' @ join '', '' msgs]
      | None \<Rightarrow>
          (case rs_mutation response of
             None \<Rightarrow> [''Batch '' @ showNat batchNum @ '': No mutation result'']
           | Some mutation \<Rightarrow>
               if mr_success mutation
               then (case mr_errors mutation of None \<Rightarrow> [] | Some errs \<Rightarrow> errs)
               else [''Batch '' @ showNat batchNum @ '': '' @ mr_message mutation]))"


text \<open>
  The outcome of the retried call for a batch, and
  \<^verbatim>\<open>Math.ceil(totalProducts / BATCH_SIZE)\<close>.
\<close>

definition batchOutcome :: "(nat \<Rightarrow> nat \<Rightarrow> js_exn + sync_response) \<Rightarrow> int \<Rightarrow> nat \<Rightarrow> js_exn + sync_response" where
  "batchOutcome post maxRetries batchNum =
     fst (retryWithBackoff (post batchNum) (''GraphQL sync batch '' @ showNat batchNum) maxRetries)"

definition totalBatches :: "scraped_store_data \<Rightarrow> nat" where
  "totalBatches data = (length (products data) + BATCH_SIZE - 1) div BATCH_SIZE"

section \<open>Store detector: shop information\<close>

text \<open>
  The \<open>shop\<close> object of \<open>/shop.json\<close>, and the \<open>shop\<close> object of the storefront
  GraphQL answer with its \<open>brand\<close> (\<open>br_logo_image_url\<close> is the value of
  \<^verbatim>\<open>brand?.logo?.image?.url\<close>).
\<close>

record shop_json =
  shop_currency :: "string option"
  shop_name :: "string option"
  shop_shop_owner :: "string option"

record storefront_brand =
  br_logo_image_url :: "string option"
  br_shortDescription :: "string option"

record storefront_shop =
  ss_description :: "string option"
  ss_brand :: "storefront_brand option"

text \<open>
  A field of a returned object: not there at all, \<open>null\<close>, or a string.
\<close>

datatype js_field = Undefined | Null | Str string

definition fieldOrNull :: "js_field \<Rightarrow> js_field" where
  "fieldOrNull f = (case f of Str s \<Rightarrow> (if s = [] then Null else Str s) | _ \<Rightarrow> Null)"

definition optOrNull :: "string option \<Rightarrow> js_field" where
  "optOrNull x = (case x of None \<Rightarrow> Null | Some s \<Rightarrow> if s = [] then Null else Str s)"

record shop_branding =
  b_logo_url :: js_field
  b_description :: js_field

record shop_info =
  si_currency :: string
  si_name :: "string option"
  si_shop_owner :: "string option"
  si_logo_url :: js_field
  si_description :: js_field

text \<open>
  \<open>postBranding attempt\<close> is the outcome of the \<open>attempt\<close>-th storefront request
  (\<open>Inr\<close> the value of \<^verbatim>\<open>response.data.data?.shop\<close>); every error is swallowed into
  the empty object.
\<close>

definition getShopBranding ::
  "(nat \<Rightarrow> js_exn + storefront_shop option) \<Rightarrow> int \<Rightarrow> string \<Rightarrow> shop_branding \<times> event list" where
  "getShopBranding postBranding maxRetries domain =
     (case retryWithBackoff postBranding (''Storefront GraphQL fetch for '' @ domain) maxRetries of
        (Inl error, ev) \<Rightarrow> (\<lparr>b_logo_url = Undefined, b_description = Undefined\<rparr>, ev)
      | (Inr None, ev) \<Rightarrow> (\<lparr>b_logo_url = Undefined, b_description = Undefined\<rparr>, ev)
      | (Inr (Some d), ev) \<Rightarrow>
          (\<lparr>b_logo_url =
              optOrNull (case ss_brand d of None \<Rightarrow> None | Some b \<Rightarrow> br_logo_image_url b),
            b_description =
              (if truthyStr (case ss_brand d of None \<Rightarrow> None | Some b \<Rightarrow> br_shortDescription b)
               then optOrNull (case ss_brand d of None \<Rightarrow> None | Some b \<Rightarrow> br_shortDescription b)
               else optOrNull (ss_description d))\<rparr>, ev))"

text \<open>
  \<open>getShop attempt\<close> is the outcome of the \<open>attempt\<close>-th request for \<open>/shop.json\<close>
  (\<open>Inr\<close> the value of \<^verbatim>\<open>response.data.shop\<close>). The function returns a
  \<open>shop_info\<close> in every case; the events of both fetches come with it.
\<close>

definition getShopInfo ::
  "(nat \<Rightarrow> js_exn + shop_json option) \<Rightarrow> (nat \<Rightarrow> js_exn + storefront_shop option) \<Rightarrow> int
     \<Rightarrow> string \<Rightarrow> shop_info \<times> event list" where
  "getShopInfo getShop postBranding maxRetries domain =
     (case retryWithBackoff getShop (''Shop info fetch for '' @ domain) maxRetries of
        (Inl error, ev) \<Rightarrow>
          (\<lparr>si_currency = ''USD'', si_name = None, si_shop_owner = None,
            si_logo_url = Undefined, si_description = Undefined\<rparr>, ev)
      | (Inr None, ev) \<Rightarrow>
          (\<lparr>si_currency = ''USD'', si_name = None, si_shop_owner = None,
            si_logo_url = Undefined, si_description = Undefined\<rparr>, ev)
      | (Inr (Some shop), ev) \<Rightarrow>
          (let currency = orElse (shop_currency shop) ''USD'';
               (branding, ev') = getShopBranding postBranding maxRetries domain
           in (\<lparr>si_currency = currency, si_name = shop_name shop,
                si_shop_owner = shop_shop_owner shop,
                si_logo_url = fieldOrNull (b_logo_url branding),
                si_description = fieldOrNull (b_description branding)\<rparr>, ev @ ev')))"

text \<open>The outcome of the retried request for \<open>/shop.json\<close>.\<close>

definition shopOutcome :: "(nat \<Rightarrow> js_exn + shop_json option) \<Rightarrow> int \<Rightarrow> string \<Rightarrow> js_exn + shop_json option" where
  "shopOutcome getShop maxRetries domain =
     fst (retryWithBackoff getShop (''Shop info fetch for '' @ domain) maxRetries)"

section \<open>Example data\<close>

text \<open>
  A store with 45 products, numbered from 0, and four variants: one for product 0, one
  for product 25, one for product 44 and one whose parent is not in the catalog. A remote
  that accepts every batch, and one that cannot be reached.
\<close>

definition demoStore :: scraped_store_input where
  "demoStore = \<lparr>st_display_name = ''Cool Gear Store'', st_store_handle = ''cool-gear-store'',
     st_shopify_store_url = ''https://cool-gear-store.com'', st_default_currency = Some ''USD'',
     st_supported_currencies = Some [''USD''], st_logo_url = None, st_description = None\<rparr>"

definition demoProduct :: "nat \<Rightarrow> clore_product" where
  "demoProduct k = \<lparr>cp_shopify_id = showNat k, cp_title = ''Item'', cp_handle = None,
     cp_description = None, cp_product_type = None, cp_vendor = None, cp_images = [],
     cp_tags = None, cp_status = ''active'', cp_seo_title = None, cp_seo_description = None,
     cp_category = None, cp_gender = None\<rparr>"

definition demoVariant :: "string \<Rightarrow> clore_variant" where
  "demoVariant parent = \<lparr>cv_shopify_variant_id = ''v'' @ parent, cv_shopify_product_id = parent,
     cv_shopify_inventory_item_id = None, cv_title = ''Default'', cv_sku = None,
     cv_position = Fin 1, cv_price = ''10.00'', cv_compare_at_price = None, cv_cost_price = None,
     cv_inventory_quantity = Fin 0, cv_inventory_tracked = True, cv_inventory_policy = ''deny'',
     cv_weight = None, cv_weight_unit = ''kg'', cv_requires_shipping = True, cv_option1 = None,
     cv_option2 = None, cv_option3 = None, cv_available = True, cv_currency = ''USD''\<rparr>"

definition demoData :: scraped_store_data where
  "demoData = \<lparr>store = demoStore, products = map demoProduct [0..<45],
     product_variants = map demoVariant [''0'', ''25'', ''44'', ''999'']\<rparr>"


definition unreachableRemote :: "nat \<Rightarrow> nat \<Rightarrow> js_exn + sync_response" where
  "unreachableRemote batchNum attempt = Inl (JsError ''timeout of 120000ms exceeded'')"

text \<open>
  A remote that answers batch 1 with two GraphQL errors, batch 2 with an unsuccessful
  mutation, and every other batch with a successful mutation that reports one error.
\<close>

definition mixedRemote :: "nat \<Rightarrow> nat \<Rightarrow> js_exn + sync_response" where
  "mixedRemote batchNum attempt =
     (if batchNum = 1 then Inr \<lparr>rs_errors = Some [''boom'', ''bad''], rs_mutation = None\<rparr>
      else if batchNum = 2 then
        Inr \<lparr>rs_errors = None,
             rs_mutation = Some \<lparr>mr_success = False, mr_message = ''quota'', mr_storeId = None,
               mr_productsCreated = 0, mr_variantsCreated = 0, mr_errors = Some [''ignored'']\<rparr>\<rparr>
      else
        Inr \<lparr>rs_errors = None,
             rs_mutation = Some \<lparr>mr_success = True, mr_message = ''ok'', mr_storeId = Some ''store-1'',
               mr_productsCreated = 5, mr_variantsCreated = 1, mr_errors = Some [''one skipped'']\<rparr>\<rparr>)"

text \<open>
  A feed of two pages. Page 1 has a shirt with two variants (the second without a
  title), a product without a title that has a valid variant, and a mug without a
  variant array; page 2 has a cap with one variant. \<open>finiteFeed\<close> answers every
  request and has no products from page 3 on; \<open>failingFeed\<close> fails the first request
  for page 1 and every request for a page after the second.
\<close>

definition blankVariant :: shopify_variant where
  "blankVariant = \<lparr>sv_id = None, sv_product_id = None, sv_title = None, sv_price = JUndefined,
     sv_sku = None, sv_position = None, sv_inventory_policy = None, sv_compare_at_price = None,
     sv_option1 = None, sv_option2 = None, sv_option3 = None, sv_weight = None,
     sv_weight_unit = None, sv_inventory_item_id = None, sv_inventory_quantity = JUndefined,
     sv_requires_shipping = None, sv_tracked = None, sv_available = None\<rparr>"

definition blankProduct :: shopify_product where
  "blankProduct = \<lparr>sp_id = None, sp_title = None, sp_handle = None, sp_body_html = None,
     sp_vendor = None, sp_product_type = None, sp_tags = None, sp_status = None,
     sp_images = None, sp_variants = None, sp_seo = None\<rparr>"

definition demoVariantOf :: "rat \<Rightarrow> rat \<Rightarrow> string option \<Rightarrow> shopify_variant" where
  "demoVariantOf parent ident title =
     blankVariant\<lparr>sv_id := Some (Fin ident), sv_product_id := Some (Fin parent),
                  sv_title := title, sv_price := JStr ''19.99''\<rparr>"

definition demoPage :: "nat \<Rightarrow> shopify_product list" where
  "demoPage page =
     (if page = 1 then
        [blankProduct\<lparr>sp_id := Some (Fin 1), sp_title := Some ''Shirt'',
           sp_variants := Some [demoVariantOf 1 11 (Some ''Red''), demoVariantOf 1 12 None]\<rparr>,
         blankProduct\<lparr>sp_id := Some (Fin 2),
           sp_variants := Some [demoVariantOf 2 21 (Some ''Default'')]\<rparr>,
         blankProduct\<lparr>sp_id := Some (Fin 3), sp_title := Some ''Mug''\<rparr>]
      else if page = 2 then
        [blankProduct\<lparr>sp_id := Some (Fin 4), sp_title := Some ''Cap'',
           sp_variants := Some [demoVariantOf 4 41 (Some ''Blue'')]\<rparr>]
      else [])"

definition finiteFeed :: "nat \<Rightarrow> nat \<Rightarrow> js_exn + shopify_product list option" where
  "finiteFeed page attempt = Inr (Some (demoPage page))"

definition failingFeed :: "nat \<Rightarrow> nat \<Rightarrow> js_exn + shopify_product list option" where
  "failingFeed page attempt =
     (if page = 1 \<and> attempt = 1 then Inl (JsError ''socket hang up'')
      else if page \<le> 2 then Inr (Some (demoPage page))
      else Inl (JsError ''timeout of 30000ms exceeded''))"

text \<open>
  A stand-in for the built-in conversions, right on the values of the examples below:
  it reads the price \<open>19.99\<close> and prints a finite number by its integer part.
\<close>

definition demoBuiltins :: js_builtins where
  "demoBuiltins =
     \<lparr>parseFloat = (\<lambda>s. if s = ''19.99'' then Fin (1999 / 100) else NaN),
      parseInt10 = (\<lambda>s. NaN),
      numberToString = (\<lambda>n. case n of Fin r \<Rightarrow> showNat (nat \<lfloor>r\<rfloor>) | _ \<Rightarrow> ''NaN''),
      stringToNumber = (\<lambda>s. NaN)\<rparr>"


definition weighedVariant :: "js_number option \<Rightarrow> string option \<Rightarrow> shopify_variant" where
  "weighedVariant weight unit =
     (demoVariantOf 1 11 (Some ''Red''))\<lparr>sv_weight := weight, sv_weight_unit := unit\<rparr>"

text \<open>
  A shop endpoint that is down and one that answers; a storefront endpoint that is down
  and one that answers with a logo and a description.
\<close>

definition shopDown :: "nat \<Rightarrow> js_exn + shop_json option" where
  "shopDown attempt = Inl (JsError ''Request failed with status code 404'')"

definition shopUp :: "nat \<Rightarrow> js_exn + shop_json option" where
  "shopUp attempt =
     Inr (Some \<lparr>shop_currency = Some ''EUR'', shop_name = Some ''Cool Gear'',
                 shop_shop_owner = Some ''Ada''\<rparr>)"

definition brandingDown :: "nat \<Rightarrow> js_exn + storefront_shop option" where
  "brandingDown attempt = Inl (JsError ''Request failed with status code 403'')"

definition brandingUp :: "nat \<Rightarrow> js_exn + storefront_shop option" where
  "brandingUp attempt =
     Inr (Some \<lparr>ss_description = Some ''Gear for cool people'',
                 ss_brand = Some \<lparr>br_logo_image_url = Some ''https://cdn.shop.com/logo.png'',
                                   br_shortDescription = None\<rparr>\<rparr>)"

section \<open>Properties of the retry helper\<close>

lemma retryLoop_succeeds:
  "a \<le> k \<Longrightarrow> int k \<le> m \<Longrightarrow> (\<forall>j. a \<le> j \<and> j < k \<longrightarrow> isl (fn j)) \<Longrightarrow> fn k = Inr v \<Longrightarrow>
   retryLoop fn name m a le evs =
     (Inr v, evs @ concat (map (failedAttempt fn name m) [a..<k]) @ [LogAttempt k m name])"
proof (induction fn name m a le evs rule: retryLoop.induct)
  case (1 fn name m a le evs)
  show ?case
  proof (cases "a = k")
    case True
    with 1(4,6) show ?thesis by (subst retryLoop.simps) simp
  next
    case False
    with 1(3) have lt: "a < k" by simp
    with 1(5) obtain e where e: "fn a = Inl e" by (cases "fn a") auto
    from lt 1(4) have am: "int a < m" by simp
    have IH: "retryLoop fn name m (a + 1) (toError e)
        (evs @ [LogAttempt a m name, LogRetry name a m (2 ^ (a - 1) * 1000) (exnMessage (toError e)),
                Sleep (2 ^ (a - 1) * 1000)]) =
      (Inr v, (evs @ [LogAttempt a m name, LogRetry name a m (2 ^ (a - 1) * 1000) (exnMessage (toError e)),
                Sleep (2 ^ (a - 1) * 1000)]) @ concat (map (failedAttempt fn name m) [a + 1..<k]) @ [LogAttempt k m name])"
      using 1(1)[OF _ e am] lt 1(4,5,6) am by simp
    have up: "[a..<k] = a # [a + 1..<k]" using lt by (simp add: upt_conv_Cons)
    show ?thesis
      using e am IH by (subst retryLoop.simps) (simp add: up failedAttempt_def)
  qed
qed

lemma retryLoop_exhausts:
  "1 \<le> a \<Longrightarrow> int a \<le> m \<Longrightarrow> (\<forall>j. a \<le> j \<and> int j \<le> m \<longrightarrow> isl (fn j)) \<Longrightarrow>
   retryLoop fn name m a le evs =
     (Inl (toError (projl (fn (nat m)))),
      evs @ concat (map (failedAttempt fn name m) [a..<nat m])
          @ [LogAttempt (nat m) m name,
             LogExhausted name m (exnMessage (toError (projl (fn (nat m)))))])"
proof (induction fn name m a le evs rule: retryLoop.induct)
  case (1 fn name m a le evs)
  from 1(4,5) obtain e where e: "fn a = Inl e" by (cases "fn a") auto
  show ?case
  proof (cases "int a < m")
    case True
    have up: "[a..<nat m] = a # [a + 1..<nat m]" using True by (simp add: upt_conv_Cons)
    have IH: "retryLoop fn name m (a + 1) (toError e)
        (evs @ [LogAttempt a m name, LogRetry name a m (2 ^ (a - 1) * 1000) (exnMessage (toError e)),
                Sleep (2 ^ (a - 1) * 1000)]) =
      (Inl (toError (projl (fn (nat m)))),
       (evs @ [LogAttempt a m name, LogRetry name a m (2 ^ (a - 1) * 1000) (exnMessage (toError e)),
                Sleep (2 ^ (a - 1) * 1000)]) @ concat (map (failedAttempt fn name m) [a + 1..<nat m])
          @ [LogAttempt (nat m) m name,
             LogExhausted name m (exnMessage (toError (projl (fn (nat m)))))])"
      using 1(1)[OF _ e True] 1(4,5) True by simp
    show ?thesis using e True IH by (subst retryLoop.simps) (simp add: up failedAttempt_def)
  next
    case False
    with 1(4) have eq: "int a = m" by simp
    then have nm: "nat m = a" by simp
    have stop: "retryLoop fn name m (a + 1) (toError e) evs' = (Inl (toError e), evs')" for evs'
      using eq by (subst retryLoop.simps) simp
    show ?thesis using e eq stop nm by (subst retryLoop.simps) simp
  qed
qed


lemma sleeps_failedAttempts:
  "sleeps (concat (map (failedAttempt fn name m) xs) @ rest)
     = map (\<lambda>a. 2 ^ (a - 1) * 1000) xs @ sleeps rest"
  by (induction xs) (simp_all add: failedAttempt_def)

lemma invocations_failedAttempts:
  "invocations (concat (map (failedAttempt fn name m) xs) @ rest) = xs @ invocations rest"
  by (induction xs) (simp_all add: failedAttempt_def)

lemma first_success_or_all_fail:
  fixes fn :: "nat \<Rightarrow> js_exn + 'a"
  shows "(\<exists>k v. 1 \<le> k \<and> int k \<le> m \<and> (\<forall>j. 1 \<le> j \<and> j < k \<longrightarrow> isl (fn j)) \<and> fn k = Inr v)
       \<or> (\<forall>j. 1 \<le> j \<and> int j \<le> m \<longrightarrow> isl (fn j))"
proof (cases "\<forall>j. 1 \<le> j \<and> int j \<le> m \<longrightarrow> isl (fn j)")
  case True
  then show ?thesis by blast
next
  case False
  then obtain j where j: "1 \<le> j \<and> int j \<le> m \<and> \<not> isl (fn j)" by blast
  define k where "k = (LEAST j. 1 \<le> j \<and> int j \<le> m \<and> \<not> isl (fn j))"
  have k: "1 \<le> k \<and> int k \<le> m \<and> \<not> isl (fn k)"
    unfolding k_def using j by (rule LeastI)
  have least: "\<And>i. 1 \<le> i \<and> int i \<le> m \<and> \<not> isl (fn i) \<Longrightarrow> k \<le> i"
    unfolding k_def by (rule Least_le)
  have before: "\<forall>i. 1 \<le> i \<and> i < k \<longrightarrow> isl (fn i)"
  proof (intro allI impI)
    fix i assume i: "1 \<le> i \<and> i < k"
    show "isl (fn i)"
    proof (rule ccontr)
      assume "\<not> isl (fn i)"
      with i k have "1 \<le> i \<and> int i \<le> m \<and> \<not> isl (fn i)" by simp
      from least[OF this] i show False by simp
    qed
  qed
  from k obtain v where "fn k = Inr v" by (cases "fn k") auto
  with k before show ?thesis by blast
qed

text \<open>
  C9. For every operation and every \<open>maxRetries \<ge> 1\<close>: the operation is invoked at
  most \<open>maxRetries\<close> times. If attempt \<open>k\<close> is the first to succeed, the helper
  returns its value, having invoked the operation exactly for the attempts \<open>1..k\<close>
  and slept \<open>2^(attempt-1) * 1000\<close> ms after each failed attempt, before the next one.
  If all \<open>maxRetries\<close> attempts fail, it throws the error of the last attempt (made an
  \<open>Error\<close> if it was not one), having slept after each attempt but the last, and its
  last diagnostic line carries the label and that error's message.
\<close>

theorem retryWithBackoff_contract:
  assumes "1 \<le> maxRetries"
  shows "length (invocations (snd (retryWithBackoff fn name maxRetries))) \<le> nat maxRetries
    \<and> (\<forall>k v. 1 \<le> k \<and> int k \<le> maxRetries \<and> (\<forall>j. 1 \<le> j \<and> j < k \<longrightarrow> isl (fn j)) \<and> fn k = Inr v \<longrightarrow>
          retryWithBackoff fn name maxRetries
            = (Inr v, concat (map (failedAttempt fn name maxRetries) [1..<k])
                      @ [LogAttempt k maxRetries name])
          \<and> invocations (snd (retryWithBackoff fn name maxRetries)) = [1..<k + 1]
          \<and> sleeps (snd (retryWithBackoff fn name maxRetries))
              = map (\<lambda>attempt. 2 ^ (attempt - 1) * 1000) [1..<k])
    \<and> ((\<forall>j. 1 \<le> j \<and> int j \<le> maxRetries \<longrightarrow> isl (fn j)) \<longrightarrow>
          (\<exists>e. fn (nat maxRetries) = Inl e
             \<and> retryWithBackoff fn name maxRetries
                 = (Inl (toError e),
                    concat (map (failedAttempt fn name maxRetries) [1..<nat maxRetries])
                    @ [LogAttempt (nat maxRetries) maxRetries name,
                       LogExhausted name maxRetries (exnMessage (toError e))]))
          \<and> invocations (snd (retryWithBackoff fn name maxRetries)) = [1..<nat maxRetries + 1]
          \<and> sleeps (snd (retryWithBackoff fn name maxRetries))
              = map (\<lambda>attempt. 2 ^ (attempt - 1) * 1000) [1..<nat maxRetries])"
proof -
  have succ: "retryWithBackoff fn name maxRetries
            = (Inr v, concat (map (failedAttempt fn name maxRetries) [1..<k])
                      @ [LogAttempt k maxRetries name])"
    if "1 \<le> k \<and> int k \<le> maxRetries \<and> (\<forall>j. 1 \<le> j \<and> j < k \<longrightarrow> isl (fn j)) \<and> fn k = Inr v" for k v
    unfolding retryWithBackoff_def
    using retryLoop_succeeds[of 1 k maxRetries fn v name "JsError ''Unknown error''" "[]"] that
    by simp
  have fail: "retryWithBackoff fn name maxRetries
                 = (Inl (toError (projl (fn (nat maxRetries)))),
                    concat (map (failedAttempt fn name maxRetries) [1..<nat maxRetries])
                    @ [LogAttempt (nat maxRetries) maxRetries name,
                       LogExhausted name maxRetries (exnMessage (toError (projl (fn (nat maxRetries)))))])"
    if "\<forall>j. 1 \<le> j \<and> int j \<le> maxRetries \<longrightarrow> isl (fn j)"
    unfolding retryWithBackoff_def
    using retryLoop_exhausts[of 1 maxRetries fn name "JsError ''Unknown error''" "[]"] that assms
    by simp
  have A: "length (invocations (snd (retryWithBackoff fn name maxRetries))) \<le> nat maxRetries"
    using first_success_or_all_fail[of maxRetries fn]
  proof
    assume "\<exists>k v. 1 \<le> k \<and> int k \<le> maxRetries \<and> (\<forall>j. 1 \<le> j \<and> j < k \<longrightarrow> isl (fn j)) \<and> fn k = Inr v"
    then obtain k v where kv: "1 \<le> k \<and> int k \<le> maxRetries \<and> (\<forall>j. 1 \<le> j \<and> j < k \<longrightarrow> isl (fn j)) \<and> fn k = Inr v"
      by blast
    from kv have "k \<le> nat maxRetries" by linarith
    with succ[OF kv] kv show ?thesis by (simp add: invocations_failedAttempts)
  next
    assume af: "\<forall>j. 1 \<le> j \<and> int j \<le> maxRetries \<longrightarrow> isl (fn j)"
    from fail[OF af] assms show ?thesis by (simp add: invocations_failedAttempts)
  qed
  have B: "retryWithBackoff fn name maxRetries
            = (Inr v, concat (map (failedAttempt fn name maxRetries) [1..<k])
                      @ [LogAttempt k maxRetries name])
          \<and> invocations (snd (retryWithBackoff fn name maxRetries)) = [1..<k + 1]
          \<and> sleeps (snd (retryWithBackoff fn name maxRetries))
              = map (\<lambda>attempt. 2 ^ (attempt - 1) * 1000) [1..<k]"
    if kv: "1 \<le> k \<and> int k \<le> maxRetries \<and> (\<forall>j. 1 \<le> j \<and> j < k \<longrightarrow> isl (fn j)) \<and> fn k = Inr v" for k v
    using succ[OF kv] kv by (simp add: invocations_failedAttempts sleeps_failedAttempts)
  have C: "(\<exists>e. fn (nat maxRetries) = Inl e
             \<and> retryWithBackoff fn name maxRetries
                 = (Inl (toError e),
                    concat (map (failedAttempt fn name maxRetries) [1..<nat maxRetries])
                    @ [LogAttempt (nat maxRetries) maxRetries name,
                       LogExhausted name maxRetries (exnMessage (toError e))]))
          \<and> invocations (snd (retryWithBackoff fn name maxRetries)) = [1..<nat maxRetries + 1]
          \<and> sleeps (snd (retryWithBackoff fn name maxRetries))
              = map (\<lambda>attempt. 2 ^ (attempt - 1) * 1000) [1..<nat maxRetries]"
    if af: "\<forall>j. 1 \<le> j \<and> int j \<le> maxRetries \<longrightarrow> isl (fn j)"
  proof -
    from af assms have "isl (fn (nat maxRetries))" by simp
    then obtain e where e: "fn (nat maxRetries) = Inl e" by (cases "fn (nat maxRetries)") auto
    show ?thesis using fail[OF af] e assms
      by (simp add: invocations_failedAttempts sleeps_failedAttempts)
  qed
  show ?thesis using A B C by blast
qed

theorem retryWithBackoff_contract_witness:
  "(1::int) \<le> 3
   \<and> retryWithBackoff (\<lambda>a. if a < 3 then Inl (JsThrown ''timeout'') else Inr (42::nat)) ''op'' 3
       = (Inr 42, [LogAttempt 1 3 ''op'', LogRetry ''op'' 1 3 1000 ''timeout'', Sleep 1000,
                   LogAttempt 2 3 ''op'', LogRetry ''op'' 2 3 2000 ''timeout'', Sleep 2000,
                   LogAttempt 3 3 ''op''])
   \<and> retryWithBackoff (\<lambda>a. Inl (JsThrown (showNat a)) :: js_exn + nat) ''op'' 3
       = (Inl (JsError ''3''),
                  [LogAttempt 1 3 ''op'', LogRetry ''op'' 1 3 1000 ''1'', Sleep 1000,
                   LogAttempt 2 3 ''op'', LogRetry ''op'' 2 3 2000 ''2'', Sleep 2000,
                   LogAttempt 3 3 ''op'', LogExhausted ''op'' 3 ''3''])"
proof -
  have h: "(1::int) \<le> 3" by simp
  have up: "[Suc 0..<3] = [Suc 0, 2]" by (simp add: upt_conv_Cons numeral_eq_Suc)
  let ?f = "\<lambda>a. if a < 3 then Inl (JsThrown ''timeout'') else Inr (42::nat)"
  let ?g = "\<lambda>a. Inl (JsThrown (showNat a)) :: js_exn + nat"
  note first = conjunct1[OF conjunct2[OF retryWithBackoff_contract[OF h]], rule_format]
  note none = conjunct2[OF conjunct2[OF retryWithBackoff_contract[OF h]], rule_format]
  have s: "retryWithBackoff ?f ''op'' 3
       = (Inr 42, [LogAttempt 1 3 ''op'', LogRetry ''op'' 1 3 1000 ''timeout'', Sleep 1000,
                   LogAttempt 2 3 ''op'', LogRetry ''op'' 2 3 2000 ''timeout'', Sleep 2000,
                   LogAttempt 3 3 ''op''])"
    using first[of 3 ?f 42 "''op''"]
    by (simp add: up failedAttempt_def toError_def exnMessage_def)
  have f: "retryWithBackoff ?g ''op'' 3
       = (Inl (JsError ''3''),
                  [LogAttempt 1 3 ''op'', LogRetry ''op'' 1 3 1000 ''1'', Sleep 1000,
                   LogAttempt 2 3 ''op'', LogRetry ''op'' 2 3 2000 ''2'', Sleep 2000,
                   LogAttempt 3 3 ''op'', LogExhausted ''op'' 3 ''3''])"
    using none[of ?g "''op''"]
    by (simp add: up failedAttempt_def toError_def exnMessage_def showNat.simps digitChar_def)
  show ?thesis using h s f by simp
qed

section \<open>Properties of the sync client\<close>

lemma handleBatchResponse_submitted:
  "submitted (handleBatchResponse b r acc) = submitted acc"
  by (simp add: handleBatchResponse_def split: option.splits)

lemma handleBatchResponse_allErrors:
  "allErrors (handleBatchResponse b r acc) = allErrors acc @ batchErrorStrings b r"
  by (simp add: handleBatchResponse_def batchErrorStrings_def split: option.splits)









subsection \<open>The aggregated error list\<close>

lemma batch_index: "(k * BATCH_SIZE < length (products data)) = (k < totalBatches data)"
proof -
  have "(k * 20 < n) = (k < (n + 20 - 1) div 20)" for n :: nat
  proof -
    have "((n + 20 - 1) div 20 < k + 1) = (n + 20 - 1 < (k + 1) * 20)"
      by (rule div_less_iff_less_mult) simp
    then show ?thesis by linarith
  qed
  then show ?thesis by (simp only: totalBatches_def BATCH_SIZE_def)
qed

lemma syncLoop_done:
  "\<not> k < totalBatches data \<Longrightarrow> syncLoop post m data (k * BATCH_SIZE) acc = Inr acc"
  by (subst syncLoop.simps) (simp only: batch_index if_False)

lemma syncLoop_step:
  assumes "k < totalBatches data"
  shows "syncLoop post m data (k * BATCH_SIZE) acc =
     (case retryWithBackoff (post (k + 1)) (''GraphQL sync batch '' @ showNat (k + 1)) m of
        (Inl error, ev) \<Rightarrow>
          Inl (error, acc\<lparr>submitted := submitted acc
                  @ [\<lparr>var_store = store data,
                      var_products = productBatchAt data (k * BATCH_SIZE),
                      var_variants = variantBatchFor data (productBatchAt data (k * BATCH_SIZE))\<rparr>],
                syncEvents := syncEvents acc @ ev\<rparr>)
      | (Inr response, ev) \<Rightarrow>
          syncLoop post m data ((k + 1) * BATCH_SIZE)
            (handleBatchResponse (k + 1) response
               (acc\<lparr>submitted := submitted acc
                  @ [\<lparr>var_store = store data,
                      var_products = productBatchAt data (k * BATCH_SIZE),
                      var_variants = variantBatchFor data (productBatchAt data (k * BATCH_SIZE))\<rparr>],
                syncEvents := syncEvents acc @ ev\<rparr>)))"
proof -
  have bn: "k * BATCH_SIZE div BATCH_SIZE + 1 = k + 1" by (simp add: BATCH_SIZE_def)
  have nx: "k * BATCH_SIZE + BATCH_SIZE = (k + 1) * BATCH_SIZE" by simp
  have lt: "k * BATCH_SIZE < length (products data)" using assms by (simp only: batch_index)
  show ?thesis
    by (subst syncLoop.simps) (simp only: lt if_True Let_def bn nx)
qed

lemma syncLoop_thrown:
  assumes "k < totalBatches data" "batchOutcome post m (k + 1) = Inl e"
  shows "\<exists>acc'. syncLoop post m data (k * BATCH_SIZE) acc = Inl (e, acc')
           \<and> allErrors acc' = allErrors acc
           \<and> length (submitted acc') = length (submitted acc) + 1"
proof -
  obtain out ev where rb:
    "retryWithBackoff (post (k + 1)) (''GraphQL sync batch '' @ showNat (k + 1)) m = (out, ev)"
    by (rule prod.exhaust)
  with assms(2) have out: "out = Inl e" by (simp only: batchOutcome_def fst_conv)
  show ?thesis
    unfolding syncLoop_step[OF assms(1)] rb out by simp
qed

lemma syncLoop_answered:
  assumes "k < totalBatches data" "batchOutcome post m (k + 1) = Inr r"
  shows "\<exists>acc1. syncLoop post m data (k * BATCH_SIZE) acc
                  = syncLoop post m data ((k + 1) * BATCH_SIZE) acc1
           \<and> allErrors acc1 = allErrors acc @ batchErrorStrings (k + 1) r
           \<and> length (submitted acc1) = length (submitted acc) + 1"
proof -
  obtain out ev where rb:
    "retryWithBackoff (post (k + 1)) (''GraphQL sync batch '' @ showNat (k + 1)) m = (out, ev)"
    by (rule prod.exhaust)
  with assms(2) have out: "out = Inr r" by (simp only: batchOutcome_def fst_conv)
  show ?thesis
    unfolding syncLoop_step[OF assms(1)] rb out
    apply (simp only: prod.case sum.case)
    apply (rule exI, rule conjI, rule refl)
    apply (simp add: handleBatchResponse_allErrors handleBatchResponse_submitted)
    done
qed

lemma syncLoop_all_answered:
  "d = totalBatches data - k \<Longrightarrow>
   (\<forall>b. k < b \<and> b \<le> totalBatches data \<longrightarrow> \<not> isl (batchOutcome post m b)) \<Longrightarrow>
   \<exists>acc'. syncLoop post m data (k * BATCH_SIZE) acc = Inr acc'
     \<and> allErrors acc' = allErrors acc
          @ concat (map (\<lambda>b. batchErrorStrings b (projr (batchOutcome post m b)))
                     [k + 1..<totalBatches data + 1])
     \<and> length (submitted acc') = length (submitted acc) + (totalBatches data - k)"
proof (induction d arbitrary: k acc)
  case 0
  then have "\<not> k < totalBatches data" by simp
  then show ?case by (simp add: syncLoop_done)
next
  case (Suc d)
  then have lt: "k < totalBatches data" by simp
  with Suc.prems(2) have "\<not> isl (batchOutcome post m (k + 1))" by simp
  then obtain r where r: "batchOutcome post m (k + 1) = Inr r"
    by (cases "batchOutcome post m (k + 1)") auto
  from syncLoop_answered[OF lt r, of acc] obtain acc1 where acc1:
    "syncLoop post m data (k * BATCH_SIZE) acc = syncLoop post m data ((k + 1) * BATCH_SIZE) acc1"
    "allErrors acc1 = allErrors acc @ batchErrorStrings (k + 1) r"
    "length (submitted acc1) = length (submitted acc) + 1"
    by blast
  have d: "d = totalBatches data - (k + 1)" using Suc.prems(1) by simp
  have rest: "\<forall>b. k + 1 < b \<and> b \<le> totalBatches data \<longrightarrow> \<not> isl (batchOutcome post m b)"
    using Suc.prems(2) by simp
  from Suc.IH[OF d rest, of acc1] obtain acc' where acc':
    "syncLoop post m data ((k + 1) * BATCH_SIZE) acc1 = Inr acc'"
    "allErrors acc' = allErrors acc1
          @ concat (map (\<lambda>b. batchErrorStrings b (projr (batchOutcome post m b)))
                     [k + 1 + 1..<totalBatches data + 1])"
    "length (submitted acc') = length (submitted acc1) + (totalBatches data - (k + 1))"
    by blast
  have up: "[k + 1..<totalBatches data + 1] = (k + 1) # [k + 1 + 1..<totalBatches data + 1]"
    using lt by (simp add: upt_conv_Cons)
  show ?case
    apply (rule exI[of _ acc'])
    using acc1 acc' lt r by (simp only: up) simp
qed

lemma syncLoop_first_thrown:
  "d = f - k \<Longrightarrow> k < f \<Longrightarrow> f \<le> totalBatches data \<Longrightarrow>
   (\<forall>b. k < b \<and> b < f \<longrightarrow> \<not> isl (batchOutcome post m b)) \<Longrightarrow>
   batchOutcome post m f = Inl e \<Longrightarrow>
   \<exists>acc'. syncLoop post m data (k * BATCH_SIZE) acc = Inl (e, acc')
     \<and> allErrors acc' = allErrors acc
          @ concat (map (\<lambda>b. batchErrorStrings b (projr (batchOutcome post m b))) [k + 1..<f])
     \<and> length (submitted acc') = length (submitted acc) + (f - k)"
proof (induction d arbitrary: k acc)
  case 0
  then show ?case by simp
next
  case (Suc d)
  from Suc.prems(2,3) have lt: "k < totalBatches data" by simp
  show ?case
  proof (cases "k + 1 = f")
    case True
    with Suc.prems(5) have e: "batchOutcome post m (k + 1) = Inl e" by simp
    from syncLoop_thrown[OF lt e, of acc] True show ?thesis by auto
  next
    case False
    with Suc.prems(2) have kf: "k + 1 < f" by simp
    with Suc.prems(4) have "\<not> isl (batchOutcome post m (k + 1))" by simp
    then obtain r where r: "batchOutcome post m (k + 1) = Inr r"
      by (cases "batchOutcome post m (k + 1)") auto
    from syncLoop_answered[OF lt r, of acc] obtain acc1 where acc1:
      "syncLoop post m data (k * BATCH_SIZE) acc = syncLoop post m data ((k + 1) * BATCH_SIZE) acc1"
      "allErrors acc1 = allErrors acc @ batchErrorStrings (k + 1) r"
      "length (submitted acc1) = length (submitted acc) + 1"
      by blast
    have d: "d = f - (k + 1)" using Suc.prems(1) by simp
    have rest: "\<forall>b. k + 1 < b \<and> b < f \<longrightarrow> \<not> isl (batchOutcome post m b)"
      using Suc.prems(4) by simp
    from Suc.IH[OF d kf Suc.prems(3) rest Suc.prems(5), of acc1] obtain acc' where acc':
      "syncLoop post m data ((k + 1) * BATCH_SIZE) acc1 = Inl (e, acc')"
      "allErrors acc' = allErrors acc1
          @ concat (map (\<lambda>b. batchErrorStrings b (projr (batchOutcome post m b))) [k + 1 + 1..<f])"
      "length (submitted acc') = length (submitted acc1) + (f - (k + 1))"
      by blast
    have up: "[k + 1..<f] = (k + 1) # [k + 1 + 1..<f]"
      using kf by (simp add: upt_conv_Cons)
    show ?thesis
      apply (rule exI[of _ acc'])
      using acc1 acc' kf r by (simp only: up) simp
  qed
qed

lemma retry_first_attempt_ok:
  "1 \<le> m \<Longrightarrow> fn 1 = Inr v \<Longrightarrow> fst (retryWithBackoff fn name m) = Inr v"
  unfolding retryWithBackoff_def by (subst retryLoop.simps) simp

lemma retry_all_attempts_fail:
  "1 \<le> m \<Longrightarrow> (\<forall>j. fn j = Inl e) \<Longrightarrow> fst (retryWithBackoff fn name m) = Inl (toError e)"
  unfolding retryWithBackoff_def
  using retryLoop_exhausts[of 1 m fn name "JsError ''Unknown error''" "[]"] by simp


text \<open>
  C1 (as amended). In a run in which the retried request of every batch returns a
  response, the aggregated error list is the concatenation, in batch order, of what
  each response contributes (one string for a GraphQL error, for a missing mutation
  result or for an unsuccessful mutation, and the errors reported by a successful
  mutation); every batch is submitted; and the returned success flag is true exactly
  when that list is empty. In a run in which the request of some batch fails after its
  retries, the run stops at the first such batch and returns failure with the message
  \<open>Sync error: ...\<close> and no result.
\<close>

theorem sync_success_iff_no_errors:
  fixes post maxRetries token data
  defines "S \<equiv> syncScrapedStoreAndProducts post maxRetries token data"
  shows
   "((\<forall>b. 1 \<le> b \<and> b \<le> totalBatches data \<longrightarrow> \<not> isl (batchOutcome post maxRetries b)) \<longrightarrow>
        allErrors (snd S)
          = concat (map (\<lambda>b. batchErrorStrings b (projr (batchOutcome post maxRetries b)))
                      [1..<totalBatches data + 1])
      \<and> length (submitted (snd S)) = totalBatches data
      \<and> success (fst S) = (allErrors (snd S) = [])
      \<and> (\<exists>res. result (fst S) = Some res \<and> mr_errors res = Some (allErrors (snd S))
                \<and> mr_success res = success (fst S)))
    \<and> (\<forall>f e. 1 \<le> f \<and> f \<le> totalBatches data
           \<and> (\<forall>b. 1 \<le> b \<and> b < f \<longrightarrow> \<not> isl (batchOutcome post maxRetries b))
           \<and> batchOutcome post maxRetries f = Inl e \<longrightarrow>
          success (fst S) = False \<and> result (fst S) = None
          \<and> message (fst S) = ''Sync error: '' @ exnMessage e
          \<and> length (submitted (snd S)) = f)"
proof (intro conjI impI allI)
  assume all: "\<forall>b. 1 \<le> b \<and> b \<le> totalBatches data \<longrightarrow> \<not> isl (batchOutcome post maxRetries b)"
  then have all0: "\<forall>b. 0 < b \<and> b \<le> totalBatches data \<longrightarrow> \<not> isl (batchOutcome post maxRetries b)"
    by simp
  from syncLoop_all_answered[OF refl all0, of initialSyncAcc] obtain acc' where acc':
    "syncLoop post maxRetries data (0 * BATCH_SIZE) initialSyncAcc = Inr acc'"
    "allErrors acc' = allErrors initialSyncAcc
          @ concat (map (\<lambda>b. batchErrorStrings b (projr (batchOutcome post maxRetries b)))
                     [0 + 1..<totalBatches data + 1])"
    "length (submitted acc') = length (submitted initialSyncAcc) + (totalBatches data - 0)"
    by blast
  have loop: "syncLoop post maxRetries data 0 initialSyncAcc = Inr acc'" using acc'(1) by simp
  have sndS: "snd S = acc'" by (simp add: S_def syncScrapedStoreAndProducts_def loop Let_def)
  show "allErrors (snd S)
          = concat (map (\<lambda>b. batchErrorStrings b (projr (batchOutcome post maxRetries b)))
                      [1..<totalBatches data + 1])"
    using acc'(2) by (simp add: sndS initialSyncAcc_def)
  show "length (submitted (snd S)) = totalBatches data"
    using acc'(3) by (simp add: sndS initialSyncAcc_def)
  show "success (fst S) = (allErrors (snd S) = [])"
    by (simp add: S_def syncScrapedStoreAndProducts_def loop Let_def)
  show "\<exists>res. result (fst S) = Some res \<and> mr_errors res = Some (allErrors (snd S))
                \<and> mr_success res = success (fst S)"
    by (simp add: S_def syncScrapedStoreAndProducts_def loop Let_def)
next
  fix f e
  assume h: "1 \<le> f \<and> f \<le> totalBatches data
           \<and> (\<forall>b. 1 \<le> b \<and> b < f \<longrightarrow> \<not> isl (batchOutcome post maxRetries b))
           \<and> batchOutcome post maxRetries f = Inl e"
  then have f0: "0 < f" and fle: "f \<le> totalBatches data"
    and bef: "\<forall>b. 0 < b \<and> b < f \<longrightarrow> \<not> isl (batchOutcome post maxRetries b)"
    and fe: "batchOutcome post maxRetries f = Inl e" by simp_all
  from syncLoop_first_thrown[OF refl f0 fle bef fe, of initialSyncAcc] obtain acc' where acc':
    "syncLoop post maxRetries data (0 * BATCH_SIZE) initialSyncAcc = Inl (e, acc')"
    "length (submitted acc') = length (submitted initialSyncAcc) + (f - 0)"
    by blast
  have loop: "syncLoop post maxRetries data 0 initialSyncAcc = Inl (e, acc')" using acc'(1) by simp
  show "success (fst S) = False"
    by (simp add: S_def syncScrapedStoreAndProducts_def loop)
  show "result (fst S) = None"
    by (simp add: S_def syncScrapedStoreAndProducts_def loop)
  show "message (fst S) = ''Sync error: '' @ exnMessage e"
    by (simp add: S_def syncScrapedStoreAndProducts_def loop)
  have sndS: "snd S = acc'" by (simp add: S_def syncScrapedStoreAndProducts_def loop)
  show "length (submitted (snd S)) = f"
    using acc'(2) by (simp add: sndS initialSyncAcc_def)
qed


text \<open>
  Without the restriction to answered requests, C1 fails when the remote cannot be
  reached: the run returns
  failure although nothing was ever added to the aggregated error list, and it stops
  after the first of the three batches.
\<close>

theorem sync_success_counterexample:
  "\<not> (success (fst (syncScrapedStoreAndProducts unreachableRemote 3 ''token'' demoData))
        \<longleftrightarrow> allErrors (snd (syncScrapedStoreAndProducts unreachableRemote 3 ''token'' demoData)) = [])
   \<and> length (submitted (snd (syncScrapedStoreAndProducts unreachableRemote 3 ''token'' demoData)))
        < totalBatches demoData"
  by code_simp

lemma mixedRemote_answers: "\<not> isl (batchOutcome mixedRemote 3 b)"
proof -
  have "\<exists>r. mixedRemote b 1 = Inr r" by (simp add: mixedRemote_def)
  then obtain r where "mixedRemote b 1 = Inr r" by blast
  then have "batchOutcome mixedRemote 3 b = Inr r"
    unfolding batchOutcome_def by (intro retry_first_attempt_ok) simp_all
  then show ?thesis by simp
qed

lemma unreachableRemote_fails:
  "batchOutcome unreachableRemote 3 b = Inl (JsError ''timeout of 120000ms exceeded'')"
proof -
  have "batchOutcome unreachableRemote 3 b = Inl (toError (JsError ''timeout of 120000ms exceeded''))"
    unfolding batchOutcome_def
    by (intro retry_all_attempts_fail) (simp_all add: unreachableRemote_def)
  then show ?thesis by (simp add: toError_def)
qed

lemma totalBatches_demoData: "totalBatches demoData = 3"
  by (simp add: totalBatches_def demoData_def BATCH_SIZE_def)

theorem sync_success_iff_no_errors_witness:
  "allErrors (snd (syncScrapedStoreAndProducts mixedRemote 3 ''token'' demoData))
     = [''Batch 1: boom, bad'', ''Batch 2: quota'', ''one skipped'']
   \<and> length (submitted (snd (syncScrapedStoreAndProducts mixedRemote 3 ''token'' demoData))) = 3
   \<and> success (fst (syncScrapedStoreAndProducts mixedRemote 3 ''token'' demoData)) = False
   \<and> success (fst (syncScrapedStoreAndProducts unreachableRemote 3 ''token'' demoData)) = False
   \<and> result (fst (syncScrapedStoreAndProducts unreachableRemote 3 ''token'' demoData)) = None
   \<and> message (fst (syncScrapedStoreAndProducts unreachableRemote 3 ''token'' demoData))
       = ''Sync error: timeout of 120000ms exceeded''
   \<and> length (submitted (snd (syncScrapedStoreAndProducts unreachableRemote 3 ''token'' demoData))) = 1"
proof -
  note answered = conjunct1[OF sync_success_iff_no_errors[of demoData mixedRemote 3 "''token''"], rule_format]
  note thrown = conjunct2[OF sync_success_iff_no_errors[of demoData unreachableRemote 3 "''token''"],
                  rule_format, of 1 "JsError ''timeout of 120000ms exceeded''"]
  have errs: "concat (map (\<lambda>b. batchErrorStrings b (projr (batchOutcome mixedRemote 3 b))) [Suc 0..<4])
     = [''Batch 1: boom, bad'', ''Batch 2: quota'', ''one skipped'']"
    by code_simp
  have a: "allErrors (snd (syncScrapedStoreAndProducts mixedRemote 3 ''token'' demoData))
          = [''Batch 1: boom, bad'', ''Batch 2: quota'', ''one skipped'']
      \<and> length (submitted (snd (syncScrapedStoreAndProducts mixedRemote 3 ''token'' demoData))) = 3
      \<and> success (fst (syncScrapedStoreAndProducts mixedRemote 3 ''token'' demoData)) = False"
    using answered mixedRemote_answers by (simp add: errs totalBatches_demoData)
  have t: "success (fst (syncScrapedStoreAndProducts unreachableRemote 3 ''token'' demoData)) = False
     \<and> result (fst (syncScrapedStoreAndProducts unreachableRemote 3 ''token'' demoData)) = None
     \<and> message (fst (syncScrapedStoreAndProducts unreachableRemote 3 ''token'' demoData))
         = ''Sync error: '' @ exnMessage (JsError ''timeout of 120000ms exceeded'')
     \<and> length (submitted (snd (syncScrapedStoreAndProducts unreachableRemote 3 ''token'' demoData))) = 1"
    using thrown unreachableRemote_fails by (simp add: totalBatches_demoData)
  show ?thesis using a t by (simp add: exnMessage_def)
qed

section \<open>Properties of the paginated scraper\<close>

lemma scanVariants_eq:
  "scanVariants vs acc = acc @ filter (\<lambda>v. truthyNum (sv_id v) \<and> truthyStr (sv_title v)) vs"
  by (induction vs arbitrary: acc) auto

lemma orElse_falsy: "\<not> truthyStr x \<Longrightarrow> orElse x d = d"
  by (auto simp: truthyStr_def orElse_def split: option.splits)

lemma scanProducts_eq:
  "scanProducts ps st =
     \<lparr>allProducts = allProducts st @ acceptedProducts ps,
      allVariants = allVariants st @ acceptedVariants ps,
      failedProducts = failedProducts st @ rejectedProducts ps\<rparr>"
proof (induction ps arbitrary: st)
  case Nil
  show ?case by (simp add: acceptedProducts_def acceptedVariants_def rejectedProducts_def)
next
  case (Cons p ps)
  show ?case
    by (simp add: Cons.IH acceptedProducts_def acceptedVariants_def rejectedProducts_def
          scanVariants_eq orElse_falsy split: option.splits)
qed

lemma scrapeLoop_stop:
  assumes "pageStops get domain m page"
  shows "scrapeLoop get domain m rl page st evs
           = Some (page, st, evs @ pageEvents get domain m page)"
  using assms
  by (subst scrapeLoop.simps)
     (auto simp: pageStops_def pageEvents_def split: prod.splits sum.splits option.splits)

lemma scrapeLoop_continue:
  assumes "\<not> pageStops get domain m page"
  shows "scrapeLoop get domain m rl page st evs
           = scrapeLoop get domain m rl (page + 1)
               (scanProducts (pageProducts get domain m page) st)
               (evs @ pageEvents get domain m page @ [Sleep rl])"
  using assms
  by (subst scrapeLoop.simps)
     (auto simp: pageStops_def pageEvents_def pageProducts_def
           split: prod.splits sum.splits option.splits)

lemma scrapeLoop_runs:
  "d = n - page \<Longrightarrow> page \<le> n \<Longrightarrow>
   (\<forall>p. page \<le> p \<and> p < n \<longrightarrow> \<not> pageStops get domain m p) \<Longrightarrow>
   pageStops get domain m n \<Longrightarrow>
   scrapeLoop get domain m rl page st evs =
     Some (n,
           \<lparr>allProducts = allProducts st
              @ concat (map (\<lambda>p. acceptedProducts (pageProducts get domain m p)) [page..<n]),
            allVariants = allVariants st
              @ concat (map (\<lambda>p. acceptedVariants (pageProducts get domain m p)) [page..<n]),
            failedProducts = failedProducts st
              @ concat (map (\<lambda>p. rejectedProducts (pageProducts get domain m p)) [page..<n])\<rparr>,
           evs @ concat (map (\<lambda>p. pageEvents get domain m p @ [Sleep rl]) [page..<n])
               @ pageEvents get domain m n)"
proof (induction d arbitrary: page st evs)
  case 0
  then have "page = n" by simp
  with 0 show ?case by (simp add: scrapeLoop_stop)
next
  case (Suc d)
  then have lt: "page < n" by simp
  with Suc.prems(3) have go: "\<not> pageStops get domain m page" by simp
  have up: "[page..<n] = page # [page + 1..<n]" using lt by (simp add: upt_conv_Cons)
  have d: "d = n - (page + 1)" using Suc.prems(1) by simp
  have le: "page + 1 \<le> n" using lt by simp
  have rest: "\<forall>p. page + 1 \<le> p \<and> p < n \<longrightarrow> \<not> pageStops get domain m p"
    using Suc.prems(3) by simp
  show ?case
    unfolding scrapeLoop_continue[OF go] Suc.IH[OF d le rest Suc.prems(4)] up
    by (simp add: scanProducts_eq)
qed


lemma scrapeLoop_returns_at_stop:
  "scrapeLoop get domain m rl page st evs = Some y \<Longrightarrow> \<exists>n\<ge>page. pageStops get domain m n"
proof (induction rule: scrapeLoop.raw_induct[rotated 1, consumes 1])
  case (1 loop get domain m rl page st evs y)
  show ?case
  proof (cases "pageStops get domain m page")
    case True
    then show ?thesis by blast
  next
    case False
    obtain out ev where rb:
      "retryWithBackoff (get page) (pageLabel page domain) m = (out, ev)"
      by (rule prod.exhaust)
    with False obtain prods where out: "out = Inr (Some prods)" and ne: "prods \<noteq> []"
      by (auto simp: pageStops_def split: sum.splits option.splits)
    from 1(2) have "loop get domain m rl (page + 1) (scanProducts prods st)
                      (evs @ ev @ [Sleep rl]) = Some y"
      by (simp add: rb out ne)
    from 1(1)[OF this] obtain n where "n \<ge> page + 1" "pageStops get domain m n" by blast
    then show ?thesis by (intro exI[of _ n]) simp
  qed
qed


lemma scrapeShopifyProducts_runs:
  assumes "1 \<le> n" "\<forall>p. 1 \<le> p \<and> p < n \<longrightarrow> \<not> pageStops get domain m p"
    "pageStops get domain m n"
  shows "scrapeShopifyProducts get m rl domain =
     Some (\<lparr>res_products = concat (map (\<lambda>p. acceptedProducts (pageProducts get domain m p)) [1..<n]),
            res_variants = concat (map (\<lambda>p. acceptedVariants (pageProducts get domain m p)) [1..<n]),
            res_failedProducts =
              concat (map (\<lambda>p. rejectedProducts (pageProducts get domain m p)) [1..<n]),
            res_totalPages = n - 1\<rparr>,
           concat (map (\<lambda>p. pageEvents get domain m p @ [Sleep rl]) [1..<n])
             @ pageEvents get domain m n)"
  unfolding scrapeShopifyProducts_def scrapeLoop_runs[OF refl assms] by simp

lemma scrapeShopifyProducts_never_stopping:
  assumes "\<forall>p. 1 \<le> p \<longrightarrow> \<not> pageStops get domain m p"
  shows "scrapeShopifyProducts get m rl domain = None"
proof (cases "scrapeLoop get domain m rl 1
                \<lparr>allProducts = [], allVariants = [], failedProducts = []\<rparr> []")
  case None
  then show ?thesis by (simp add: scrapeShopifyProducts_def)
next
  case (Some y)
  from scrapeLoop_returns_at_stop[OF this] assms show ?thesis by blast
qed

lemma first_stop_page:
  assumes "\<exists>n\<ge>1. pageStops get domain m n"
  shows "\<exists>n. 1 \<le> n \<and> (\<forall>p. 1 \<le> p \<and> p < n \<longrightarrow> \<not> pageStops get domain m p)
           \<and> pageStops get domain m n"
proof -
  from assms obtain n0 where n0: "1 \<le> n0 \<and> pageStops get domain m n0" by blast
  define n where "n = (LEAST k. 1 \<le> k \<and> pageStops get domain m k)"
  have n: "1 \<le> n \<and> pageStops get domain m n" unfolding n_def using n0 by (rule LeastI)
  have "\<not> pageStops get domain m p" if "1 \<le> p \<and> p < n" for p
  proof
    assume "pageStops get domain m p"
    with that have "n \<le> p" unfolding n_def by (intro Least_le) simp
    with that show False by simp
  qed
  with n show ?thesis by blast
qed

text \<open>
  C8. For every feed: if page \<open>n\<close> is the first page whose fetch fails after its
  retries or yields no products, the scraper returns; the result holds the accepted
  products and variants and the failure records of the pages \<open>1..n-1\<close>, in order,
  with \<open>n - 1\<close> as the number of pages processed; the requests made are those for
  the pages \<open>1..n\<close> (with a rate-limit sleep after each page but the last), so no
  page after \<open>n\<close> is attempted. If no page fails or is empty, the scraper never
  returns.
\<close>

theorem scrape_stops_with_partial_result:
  "(1 \<le> n \<and> (\<forall>p. 1 \<le> p \<and> p < n \<longrightarrow> \<not> pageStops get domain maxRetries p)
      \<and> pageStops get domain maxRetries n \<longrightarrow>
      scrapeShopifyProducts get maxRetries rateLimitDelay domain =
        Some (\<lparr>res_products =
                 concat (map (\<lambda>p. acceptedProducts (pageProducts get domain maxRetries p)) [1..<n]),
               res_variants =
                 concat (map (\<lambda>p. acceptedVariants (pageProducts get domain maxRetries p)) [1..<n]),
               res_failedProducts =
                 concat (map (\<lambda>p. rejectedProducts (pageProducts get domain maxRetries p)) [1..<n]),
               res_totalPages = n - 1\<rparr>,
              concat (map (\<lambda>p. pageEvents get domain maxRetries p @ [Sleep rateLimitDelay]) [1..<n])
                @ pageEvents get domain maxRetries n))
   \<and> ((\<forall>p. 1 \<le> p \<longrightarrow> \<not> pageStops get domain maxRetries p) \<longrightarrow>
        scrapeShopifyProducts get maxRetries rateLimitDelay domain = None)"
  using scrapeShopifyProducts_runs[of n get domain maxRetries rateLimitDelay]
    scrapeShopifyProducts_never_stopping[of get domain maxRetries rateLimitDelay]
  by blast


theorem scrape_stops_with_partial_result_witness:
  "1 \<le> (3::nat)
   \<and> \<not> pageStops failingFeed ''shop.com'' 2 1 \<and> \<not> pageStops failingFeed ''shop.com'' 2 2
   \<and> pageStops failingFeed ''shop.com'' 2 3
   \<and> scrapeShopifyProducts failingFeed 2 2000 ''shop.com'' =
       Some (\<lparr>res_products = [demoPage 1 ! 0, demoPage 1 ! 2, demoPage 2 ! 0],
              res_variants = [demoVariantOf 1 11 (Some ''Red''), demoVariantOf 4 41 (Some ''Blue'')],
              res_failedProducts = [(''Unknown'', ''Product missing title'')],
              res_totalPages = 2\<rparr>,
             [LogAttempt 1 2 ''Page 1 of shop.com'',
              LogRetry ''Page 1 of shop.com'' 1 2 1000 ''socket hang up'', Sleep 1000,
              LogAttempt 2 2 ''Page 1 of shop.com'', Sleep 2000,
              LogAttempt 1 2 ''Page 2 of shop.com'', Sleep 2000,
              LogAttempt 1 2 ''Page 3 of shop.com'',
              LogRetry ''Page 3 of shop.com'' 1 2 1000 ''timeout of 30000ms exceeded'', Sleep 1000,
              LogAttempt 2 2 ''Page 3 of shop.com'',
              LogExhausted ''Page 3 of shop.com'' 2 ''timeout of 30000ms exceeded''])"
proof -
  have p1: "\<not> pageStops failingFeed ''shop.com'' 2 1" by code_simp
  have p2: "\<not> pageStops failingFeed ''shop.com'' 2 2" by code_simp
  have p3: "pageStops failingFeed ''shop.com'' 2 3" by code_simp
  have before: "\<forall>p. 1 \<le> p \<and> p < 3 \<longrightarrow> \<not> pageStops failingFeed ''shop.com'' 2 p"
  proof (intro allI impI)
    fix p :: nat assume "1 \<le> p \<and> p < 3"
    then have "p = 1 \<or> p = 2" by auto
    with p1 p2 show "\<not> pageStops failingFeed ''shop.com'' 2 p" by auto
  qed
  have hyp: "1 \<le> (3::nat) \<and> (\<forall>p. 1 \<le> p \<and> p < 3 \<longrightarrow> \<not> pageStops failingFeed ''shop.com'' 2 p)
      \<and> pageStops failingFeed ''shop.com'' 2 3"
    using before p3 by simp
  note run = conjunct1[OF scrape_stops_with_partial_result[of 3 failingFeed "''shop.com''" 2 2000],
               rule_format, OF hyp]
  have val: "(\<lparr>res_products =
                 concat (map (\<lambda>p. acceptedProducts (pageProducts failingFeed ''shop.com'' 2 p)) [1..<3]),
               res_variants =
                 concat (map (\<lambda>p. acceptedVariants (pageProducts failingFeed ''shop.com'' 2 p)) [1..<3]),
               res_failedProducts =
                 concat (map (\<lambda>p. rejectedProducts (pageProducts failingFeed ''shop.com'' 2 p)) [1..<3]),
               res_totalPages = 3 - 1\<rparr>,
              concat (map (\<lambda>p. pageEvents failingFeed ''shop.com'' 2 p @ [Sleep 2000]) [1..<3])
                @ pageEvents failingFeed ''shop.com'' 2 3)
     = (\<lparr>res_products = [demoPage 1 ! 0, demoPage 1 ! 2, demoPage 2 ! 0],
              res_variants = [demoVariantOf 1 11 (Some ''Red''), demoVariantOf 4 41 (Some ''Blue'')],
              res_failedProducts = [(''Unknown'', ''Product missing title'')],
              res_totalPages = 2\<rparr>,
             [LogAttempt 1 2 ''Page 1 of shop.com'',
              LogRetry ''Page 1 of shop.com'' 1 2 1000 ''socket hang up'', Sleep 1000,
              LogAttempt 2 2 ''Page 1 of shop.com'', Sleep 2000,
              LogAttempt 1 2 ''Page 2 of shop.com'', Sleep 2000,
              LogAttempt 1 2 ''Page 3 of shop.com'',
              LogRetry ''Page 3 of shop.com'' 1 2 1000 ''timeout of 30000ms exceeded'', Sleep 1000,
              LogAttempt 2 2 ''Page 3 of shop.com'',
              LogExhausted ''Page 3 of shop.com'' 2 ''timeout of 30000ms exceeded''])"
    by code_simp
  have res: "scrapeShopifyProducts failingFeed 2 2000 ''shop.com'' =
       Some (\<lparr>res_products = [demoPage 1 ! 0, demoPage 1 ! 2, demoPage 2 ! 0],
              res_variants = [demoVariantOf 1 11 (Some ''Red''), demoVariantOf 4 41 (Some ''Blue'')],
              res_failedProducts = [(''Unknown'', ''Product missing title'')],
              res_totalPages = 2\<rparr>,
             [LogAttempt 1 2 ''Page 1 of shop.com'',
              LogRetry ''Page 1 of shop.com'' 1 2 1000 ''socket hang up'', Sleep 1000,
              LogAttempt 2 2 ''Page 1 of shop.com'', Sleep 2000,
              LogAttempt 1 2 ''Page 2 of shop.com'', Sleep 2000,
              LogAttempt 1 2 ''Page 3 of shop.com'',
              LogRetry ''Page 3 of shop.com'' 1 2 1000 ''timeout of 30000ms exceeded'', Sleep 1000,
              LogAttempt 2 2 ''Page 3 of shop.com'',
              LogExhausted ''Page 3 of shop.com'' 2 ''timeout of 30000ms exceeded''])"
    apply (rule trans[OF run])
    apply (rule arg_cong[where f = Some])
    apply (rule val)
    done
  show ?thesis
    using p1 p2 p3 res by (intro conjI) simp_all
qed

text \<open>
  C10. In every result the scraper returns, each variant of the variant list is one of
  the variants of a product that is in the product list, and every product in the
  product list passed the title check.
\<close>

theorem scrape_variants_have_parents:
  assumes "scrapeShopifyProducts get maxRetries rateLimitDelay domain = Some (r, evs)"
  shows "(\<forall>v \<in> set (res_variants r).
            \<exists>p \<in> set (res_products r). \<exists>vs. sp_variants p = Some vs \<and> v \<in> set vs)
       \<and> (\<forall>p \<in> set (res_products r). truthyStr (sp_title p))"
proof -
  let ?init = "\<lparr>allProducts = [], allVariants = [], failedProducts = []\<rparr>"
  from assms obtain y where y: "scrapeLoop get domain maxRetries rateLimitDelay 1 ?init [] = Some y"
    by (auto simp: scrapeShopifyProducts_def split: option.splits)
  from scrapeLoop_returns_at_stop[OF y] have "\<exists>n\<ge>1. pageStops get domain maxRetries n" .
  from first_stop_page[OF this] obtain n where n:
    "1 \<le> n" "\<forall>p. 1 \<le> p \<and> p < n \<longrightarrow> \<not> pageStops get domain maxRetries p"
    "pageStops get domain maxRetries n" by blast
  from scrapeShopifyProducts_runs[OF n, of rateLimitDelay] assms
  have ps: "res_products r
              = concat (map (\<lambda>p. acceptedProducts (pageProducts get domain maxRetries p)) [1..<n])"
    and vs: "res_variants r
              = concat (map (\<lambda>p. acceptedVariants (pageProducts get domain maxRetries p)) [1..<n])"
    by auto
  have parent: "\<exists>p \<in> set (acceptedProducts xs). \<exists>pvs. sp_variants p = Some pvs \<and> v \<in> set pvs"
    if "v \<in> set (acceptedVariants xs)" for v xs
    using that by (auto simp: acceptedVariants_def split: option.splits) metis
  show ?thesis
  proof (intro conjI ballI)
    fix v assume "v \<in> set (res_variants r)"
    then obtain k where k: "k \<in> set [1..<n]"
      "v \<in> set (acceptedVariants (pageProducts get domain maxRetries k))"
      unfolding vs by auto
    from parent[OF k(2)] obtain p pvs where p:
      "p \<in> set (acceptedProducts (pageProducts get domain maxRetries k))"
      "sp_variants p = Some pvs" "v \<in> set pvs" by blast
    from p(1) k(1) have "p \<in> set (res_products r)" unfolding ps by auto
    with p(2,3) show "\<exists>p \<in> set (res_products r). \<exists>vs. sp_variants p = Some vs \<and> v \<in> set vs"
      by blast
  next
    fix p assume "p \<in> set (res_products r)"
    then show "truthyStr (sp_title p)" unfolding ps by (auto simp: acceptedProducts_def)
  qed
qed


theorem scrape_variants_have_parents_witness:
  "scrapeShopifyProducts finiteFeed 2 2000 ''shop.com'' =
       Some (\<lparr>res_products = [demoPage 1 ! 0, demoPage 1 ! 2, demoPage 2 ! 0],
              res_variants = [demoVariantOf 1 11 (Some ''Red''), demoVariantOf 4 41 (Some ''Blue'')],
              res_failedProducts = [(''Unknown'', ''Product missing title'')],
              res_totalPages = 2\<rparr>,
             [LogAttempt 1 2 ''Page 1 of shop.com'', Sleep 2000,
              LogAttempt 1 2 ''Page 2 of shop.com'', Sleep 2000,
              LogAttempt 1 2 ''Page 3 of shop.com''])
   \<and> list_all (\<lambda>v. list_ex (\<lambda>p. \<exists>vs. sp_variants p = Some vs \<and> v \<in> set vs)
                           [demoPage 1 ! 0, demoPage 1 ! 2, demoPage 2 ! 0])
        [demoVariantOf 1 11 (Some ''Red''), demoVariantOf 4 41 (Some ''Blue'')]
   \<and> list_all (\<lambda>p. truthyStr (sp_title p)) [demoPage 1 ! 0, demoPage 1 ! 2, demoPage 2 ! 0]"
proof -
  have run: "scrapeShopifyProducts finiteFeed 2 2000 ''shop.com'' =
       Some (\<lparr>res_products = [demoPage 1 ! 0, demoPage 1 ! 2, demoPage 2 ! 0],
              res_variants = [demoVariantOf 1 11 (Some ''Red''), demoVariantOf 4 41 (Some ''Blue'')],
              res_failedProducts = [(''Unknown'', ''Product missing title'')],
              res_totalPages = 2\<rparr>,
             [LogAttempt 1 2 ''Page 1 of shop.com'', Sleep 2000,
              LogAttempt 1 2 ''Page 2 of shop.com'', Sleep 2000,
              LogAttempt 1 2 ''Page 3 of shop.com''])"
    by code_simp
  from scrape_variants_have_parents[OF run] run show ?thesis
    by (simp add: list_all_iff list_ex_iff)
qed

section \<open>Properties of the shop information\<close>

text \<open>
  C3 (as amended). \<open>getShopInfo\<close> returns a record in every case. When the retried
  request for \<open>/shop.json\<close> fails, or its answer has no shop object, the record is
  exactly the fallback with currency \<open>USD\<close> and no other field, and the branding is
  not requested. When it answers with a shop object, the currency, name and owner come
  from it, and the logo and description are those of the branding fetch (\<open>null\<close> when
  it has none or failed). In every case the currency does not depend on the storefront
  endpoint.
\<close>

theorem getShopInfo_fallback_and_independence:
  "((\<exists>e. shopOutcome getShop maxRetries domain = Inl e)
       \<or> shopOutcome getShop maxRetries domain = Inr None \<longrightarrow>
      getShopInfo getShop postBranding maxRetries domain
        = (\<lparr>si_currency = ''USD'', si_name = None, si_shop_owner = None,
             si_logo_url = Undefined, si_description = Undefined\<rparr>,
           snd (retryWithBackoff getShop (''Shop info fetch for '' @ domain) maxRetries)))
   \<and> (\<forall>shop. shopOutcome getShop maxRetries domain = Inr (Some shop) \<longrightarrow>
        fst (getShopInfo getShop postBranding maxRetries domain)
          = \<lparr>si_currency = orElse (shop_currency shop) ''USD'',
             si_name = shop_name shop, si_shop_owner = shop_shop_owner shop,
             si_logo_url =
               fieldOrNull (b_logo_url (fst (getShopBranding postBranding maxRetries domain))),
             si_description =
               fieldOrNull (b_description (fst (getShopBranding postBranding maxRetries domain)))\<rparr>)
   \<and> si_currency (fst (getShopInfo getShop postBranding maxRetries domain))
       = si_currency (fst (getShopInfo getShop postBranding' maxRetries domain))"
proof -
  define R where "R = retryWithBackoff getShop (''Shop info fetch for '' @ domain) maxRetries"
  obtain out ev where R: "R = (out, ev)" by (rule prod.exhaust)
  have so: "shopOutcome getShop maxRetries domain = out"
    by (simp only: shopOutcome_def R_def[symmetric] R fst_conv)
  have info: "getShopInfo getShop pb maxRetries domain =
     (case out of
        Inl error \<Rightarrow>
          (\<lparr>si_currency = ''USD'', si_name = None, si_shop_owner = None,
            si_logo_url = Undefined, si_description = Undefined\<rparr>, ev)
      | Inr None \<Rightarrow>
          (\<lparr>si_currency = ''USD'', si_name = None, si_shop_owner = None,
            si_logo_url = Undefined, si_description = Undefined\<rparr>, ev)
      | Inr (Some shop) \<Rightarrow>
          (\<lparr>si_currency = orElse (shop_currency shop) ''USD'', si_name = shop_name shop,
             si_shop_owner = shop_shop_owner shop,
             si_logo_url = fieldOrNull (b_logo_url (fst (getShopBranding pb maxRetries domain))),
             si_description =
               fieldOrNull (b_description (fst (getShopBranding pb maxRetries domain)))\<rparr>,
           ev @ snd (getShopBranding pb maxRetries domain)))" for pb
    unfolding getShopInfo_def R_def[symmetric] R
    by (simp add: Let_def split: sum.splits option.splits prod.splits)
  have sndR: "snd (retryWithBackoff getShop (''Shop info fetch for '' @ domain) maxRetries) = ev"
    by (simp only: R_def[symmetric] R snd_conv)
  show ?thesis
    unfolding so info sndR
    by (cases out) (auto split: option.splits)
qed

theorem getShopInfo_fallback_and_independence_witness:
  "shopOutcome shopDown 3 ''shop.com'' = Inl (JsError ''Request failed with status code 404'')
   \<and> fst (getShopInfo shopDown brandingUp 3 ''shop.com'')
       = \<lparr>si_currency = ''USD'', si_name = None, si_shop_owner = None,
          si_logo_url = Undefined, si_description = Undefined\<rparr>
   \<and> shopOutcome shopUp 3 ''shop.com''
       = Inr (Some \<lparr>shop_currency = Some ''EUR'', shop_name = Some ''Cool Gear'',
                     shop_shop_owner = Some ''Ada''\<rparr>)
   \<and> fst (getShopInfo shopUp brandingDown 3 ''shop.com'')
       = \<lparr>si_currency = ''EUR'', si_name = Some ''Cool Gear'', si_shop_owner = Some ''Ada'',
          si_logo_url = Null, si_description = Null\<rparr>"
proof -
  have down: "shopOutcome shopDown 3 ''shop.com'' = Inl (JsError ''Request failed with status code 404'')"
    by code_simp
  have up: "shopOutcome shopUp 3 ''shop.com''
       = Inr (Some \<lparr>shop_currency = Some ''EUR'', shop_name = Some ''Cool Gear'',
                     shop_shop_owner = Some ''Ada''\<rparr>)"
    by code_simp
  have nobrand: "fieldOrNull (b_logo_url (fst (getShopBranding brandingDown 3 ''shop.com''))) = Null"
    "fieldOrNull (b_description (fst (getShopBranding brandingDown 3 ''shop.com''))) = Null"
    by code_simp+
  note fb = conjunct1[OF getShopInfo_fallback_and_independence
                [of shopDown 3 "''shop.com''" brandingUp brandingUp], rule_format]
  note ok = conjunct1[OF conjunct2[OF getShopInfo_fallback_and_independence
                [of shopUp 3 "''shop.com''" brandingDown brandingDown]], rule_format, OF up]
  have a: "fst (getShopInfo shopDown brandingUp 3 ''shop.com'')
       = \<lparr>si_currency = ''USD'', si_name = None, si_shop_owner = None,
          si_logo_url = Undefined, si_description = Undefined\<rparr>"
    using fb down by simp
  have b: "fst (getShopInfo shopUp brandingDown 3 ''shop.com'')
       = \<lparr>si_currency = ''EUR'', si_name = Some ''Cool Gear'', si_shop_owner = Some ''Ada'',
          si_logo_url = Null, si_description = Null\<rparr>"
    using ok by (simp add: nobrand orElse_def)
  show ?thesis using down up a b by simp
qed

text \<open>
  Without the amendment, C3 fails when the shop endpoint is down and the storefront
  endpoint answers: the branding fetch would return the logo, and the shop information
  has none.
\<close>

theorem getShopInfo_branding_counterexample:
  "b_logo_url (fst (getShopBranding brandingUp 3 ''shop.com'')) = Str ''https://cdn.shop.com/logo.png''
   \<and> si_logo_url (fst (getShopInfo shopDown brandingUp 3 ''shop.com'')) = Undefined
   \<and> invocations (snd (getShopInfo shopDown brandingUp 3 ''shop.com'')) = [1, 2, 3]"
  by code_simp

section \<open>Properties of the data mapper\<close>

lemma mapShopifyVariantToClore_fields:
  assumes "mapShopifyVariantToClore B variant shopifyProductId = Inr cv"
  shows "cv_weight cv = convertWeight (sv_weight variant) (sv_weight_unit variant)"
    and "cv_weight_unit cv = ''kg''"
    and "cv_inventory_quantity cv =
           (if isValidInventory B (sv_inventory_quantity variant)
            then jsNumber B (sv_inventory_quantity variant) else Fin 0)"
    and "cv_inventory_tracked cv = (sv_tracked variant \<noteq> Some False)"
    and "cv_requires_shipping cv = (sv_requires_shipping variant \<noteq> Some False)"
    and "cv_available cv = (sv_available variant \<noteq> Some False)"
    and "cv_currency cv = ''USD''"
  using assms
  by (auto simp: mapShopifyVariantToClore_def Let_def split: if_splits)

lemma accepted_eq: "\<not> isl x \<Longrightarrow> x = Inr (projr x)"
  by (cases x) simp_all

lemma weighedVariant_fields:
  "sv_weight (weighedVariant w u) = w" "sv_weight_unit (weighedVariant w u) = u"
  "sv_inventory_quantity (weighedVariant w u) = JUndefined"
  "sv_tracked (weighedVariant w u) = None" "sv_requires_shipping (weighedVariant w u) = None"
  "sv_available (weighedVariant w u) = None"
  by (simp_all add: weighedVariant_def demoVariantOf_def blankVariant_def)

lemma weighedVariant_accepted:
  "\<not> isl (mapShopifyVariantToClore demoBuiltins (weighedVariant w u) (Fin 1))"
  by (simp add: mapShopifyVariantToClore_def weighedVariant_def demoVariantOf_def
        blankVariant_def demoBuiltins_def truthyNum_def truthyStr_def isValidPrice_def
        isNaN_def geZero_def Let_def)




text \<open>
  C6. For every variant the mapper accepts: the mapped inventory quantity is a number,
  and it is 0 when the source has no inventory quantity (\<open>undefined\<close> or \<open>null\<close>);
  \<open>inventory_tracked\<close>, \<open>requires_shipping\<close> and \<open>available\<close> are true unless the
  source field is \<open>false\<close>; and the mapped currency is \<open>USD\<close>.
\<close>

theorem variant_defaults:
  assumes "mapShopifyVariantToClore B variant shopifyProductId = Inr cv"
  shows "(sv_inventory_quantity variant = JUndefined \<or> sv_inventory_quantity variant = JNull
            \<longrightarrow> cv_inventory_quantity cv = Fin 0)
    \<and> cv_inventory_tracked cv = (sv_tracked variant \<noteq> Some False)
    \<and> cv_requires_shipping cv = (sv_requires_shipping variant \<noteq> Some False)
    \<and> cv_available cv = (sv_available variant \<noteq> Some False)
    \<and> cv_currency cv = ''USD''"
  using mapShopifyVariantToClore_fields[OF assms]
  by (auto simp: isValidInventory_def)

theorem variant_defaults_witness:
  "cv_inventory_quantity (projr (mapShopifyVariantToClore demoBuiltins
      (weighedVariant None None) (Fin 1))) = Fin 0
   \<and> cv_inventory_tracked (projr (mapShopifyVariantToClore demoBuiltins
      (weighedVariant None None) (Fin 1))) = True
   \<and> cv_requires_shipping (projr (mapShopifyVariantToClore demoBuiltins
      (weighedVariant None None) (Fin 1))) = True
   \<and> cv_available (projr (mapShopifyVariantToClore demoBuiltins
      (weighedVariant None None) (Fin 1))) = True
   \<and> cv_currency (projr (mapShopifyVariantToClore demoBuiltins
      (weighedVariant None None) (Fin 1))) = ''USD''"
  using variant_defaults[OF accepted_eq[OF weighedVariant_accepted], of None None]
  by (simp add: weighedVariant_fields)







section \<open>Properties of the domain normalizer\<close>

lemma splitOn_not_Nil: "splitOn c s \<noteq> []"
  by (induction s) (auto split: list.splits)

lemma hd_splitOn: "hd (splitOn c s) = takeWhile (\<lambda>x. x \<noteq> c) s"
  by (induction s) (auto simp: splitOn_not_Nil split: list.splits)

lemma splitOn_no_separator: "c \<notin> set s \<Longrightarrow> splitOn c s = [s]"
  by (induction s) auto

lemma splitOn_covers:
  "x \<in> set s \<Longrightarrow> x \<noteq> c \<Longrightarrow> \<exists>p \<in> set (splitOn c s). x \<in> set p"
proof (induction s)
  case Nil
  then show ?case by simp
next
  case (Cons a s)
  obtain t ts where sp: "splitOn c s = t # ts"
    using splitOn_not_Nil[of c s] by (cases "splitOn c s") auto
  show ?case
  proof (cases "a = c")
    case True
    with Cons.prems have "x \<in> set s" by auto
    from Cons.IH[OF this Cons.prems(2)] True show ?thesis by auto
  next
    case False
    then have eq: "splitOn c (a # s) = (a # t) # ts" by (simp add: sp)
    show ?thesis
    proof (cases "x = a")
      case True
      then show ?thesis unfolding eq by simp
    next
      case False
      with Cons.prems have "x \<in> set s" by auto
      from Cons.IH[OF this Cons.prems(2)] obtain p where "p \<in> set (t # ts)" "x \<in> set p"
        by (auto simp: sp)
      then show ?thesis unfolding eq by auto
    qed
  qed
qed

lemma isValidDomain_chars:
  assumes "isValidDomain d" "x \<in> set d"
  shows "isAlnum x \<or> x = CHR ''-'' \<or> x = CHR ''.''"
proof (cases "x = CHR ''.''")
  case True
  then show ?thesis by simp
next
  case False
  from splitOn_covers[OF assms(2) False] obtain p where
    p: "p \<in> set (splitOn CHR ''.'' d)" "x \<in> set p" by blast
  let ?parts = "splitOn CHR ''.'' d"
  have parts: "?parts = butlast ?parts @ [last ?parts]"
    using splitOn_not_Nil by simp
  from assms(1) have labels: "list_all validLabel (butlast ?parts)"
    and tld: "list_all isLetter (last ?parts)"
    by (simp_all add: isValidDomain_def Let_def)
  from p(1) parts have "p \<in> set (butlast ?parts) \<or> p = last ?parts"
    by (metis Un_iff set_append list.set(1) list.set(2) insert_iff empty_iff)
  then show ?thesis
  proof
    assume "p \<in> set (butlast ?parts)"
    with labels have "validLabel p" by (simp add: list_all_iff)
    then have "list_all (\<lambda>d. isAlnum d \<or> d = CHR ''-'') p"
      by (auto simp: validLabel_def split: list.splits)
    with p(2) show ?thesis by (auto simp: list_all_iff)
  next
    assume "p = last ?parts"
    with tld p(2) have "isLetter x" by (simp add: list_all_iff)
    then show ?thesis by (simp add: isAlnum_def)
  qed
qed

lemma isValidDomain_has_dot:
  assumes "isValidDomain d"
  shows "CHR ''.'' \<in> set d"
proof (rule ccontr)
  assume "CHR ''.'' \<notin> set d"
  then have "splitOn CHR ''.'' d = [d]" by (rule splitOn_no_separator)
  with assms show False by (simp add: isValidDomain_def)
qed


lemma lowerChar_range:
  "lowerChar x = x \<or> lowerChar x \<in> set ''abcdefghijklmnopqrstuvwxyz''"
proof (cases "map_of (zip ''ABCDEFGHIJKLMNOPQRSTUVWXYZ'' ''abcdefghijklmnopqrstuvwxyz'') x")
  case None
  then show ?thesis by (simp only: lowerChar_def option.case) simp
next
  case (Some d)
  then have "(x, d) \<in> set (zip ''ABCDEFGHIJKLMNOPQRSTUVWXYZ'' ''abcdefghijklmnopqrstuvwxyz'')"
    by (rule map_of_SomeD)
  then have "d \<in> set ''abcdefghijklmnopqrstuvwxyz''" by (rule set_zip_rightD)
  with Some show ?thesis by (simp only: lowerChar_def option.case) simp
qed

lemma lowerChar_other:
  assumes "x \<notin> set ''ABCDEFGHIJKLMNOPQRSTUVWXYZ''"
  shows "lowerChar x = x"
proof -
  have "map_of (zip ''ABCDEFGHIJKLMNOPQRSTUVWXYZ'' ''abcdefghijklmnopqrstuvwxyz'') x = None"
  proof (rule ccontr)
    assume "map_of (zip ''ABCDEFGHIJKLMNOPQRSTUVWXYZ'' ''abcdefghijklmnopqrstuvwxyz'') x \<noteq> None"
    then obtain d where
      "map_of (zip ''ABCDEFGHIJKLMNOPQRSTUVWXYZ'' ''abcdefghijklmnopqrstuvwxyz'') x = Some d"
      by blast
    then have "(x, d) \<in> set (zip ''ABCDEFGHIJKLMNOPQRSTUVWXYZ'' ''abcdefghijklmnopqrstuvwxyz'')"
      by (rule map_of_SomeD)
    then have "x \<in> set ''ABCDEFGHIJKLMNOPQRSTUVWXYZ''" by (rule set_zip_leftD)
    with assms show False by blast
  qed
  then show ?thesis by (simp only: lowerChar_def option.case)
qed

lemma lowerChar_dot: "lowerChar x = CHR ''.'' \<Longrightarrow> x = CHR ''.''"
  using lowerChar_range[of x] by auto

lemma lowerChar_fixed:
  "lowerChar CHR ''/'' = CHR ''/''" "lowerChar CHR '':'' = CHR '':''"
  by (rule lowerChar_other, simp)+

lemma lowerChar_space: "isSpace x \<Longrightarrow> lowerChar x = x"
  by (rule lowerChar_other) (auto simp: isSpace_def)

lemma not_host_chars:
  "\<not> (isAlnum CHR ''/'' \<or> CHR ''/'' = CHR ''-'' \<or> CHR ''/'' = CHR ''.'')"
  "\<not> (isAlnum CHR '':'' \<or> CHR '':'' = CHR ''-'' \<or> CHR '':'' = CHR ''.'')"
  by (simp_all add: isAlnum_def isLetter_def)

lemma space_not_host_char:
  "isSpace x \<Longrightarrow> \<not> (isAlnum x \<or> x = CHR ''-'' \<or> x = CHR ''.'')"
  by (auto simp: isAlnum_def isLetter_def isSpace_def)

lemma trim_no_space: "\<forall>x \<in> set s. \<not> isSpace x \<Longrightarrow> trim s = s"
proof (cases s rule: rev_cases)
  case Nil
  then show ?thesis by (simp add: trim_def)
next
  case (snoc ys y)
  assume a: "\<forall>x \<in> set s. \<not> isSpace x"
  then have front: "dropWhile isSpace s = s" by (cases s) auto
  from a snoc have "\<not> isSpace y" by simp
  then have "dropWhile isSpace (rev s) = rev s" by (simp add: snoc)
  then show ?thesis by (simp add: trim_def front)
qed

lemma dropWhile_replicate_append:
  "P x \<Longrightarrow> dropWhile P (replicate k x @ ys) = dropWhile P ys"
  by (induction k) auto

lemma takeWhile_until:
  assumes "c \<notin> set a" "b = [] \<or> hd b = c"
  shows "takeWhile (\<lambda>x. x \<noteq> c) (a @ b) = a"
proof -
  have b: "takeWhile (\<lambda>x. x \<noteq> c) b = []" using assms(2) by (cases b) auto
  have a: "\<And>x. x \<in> set a \<Longrightarrow> x \<noteq> c" using assms(1) by auto
  show ?thesis by (simp add: takeWhile_append2[of a "\<lambda>x. x \<noteq> c", OF a] b)
qed

lemma stripProtocol_http: "stripProtocol (''http://'' @ r) = r"
  by (simp add: stripProtocol_def startsWith_def)

lemma stripProtocol_https: "stripProtocol (''https://'' @ r) = r"
  by (simp add: stripProtocol_def startsWith_def)

lemma stripProtocol_none:
  "\<not> startsWith r ''https://'' \<Longrightarrow> \<not> startsWith r ''http://'' \<Longrightarrow> stripProtocol r = r"
  by (simp add: stripProtocol_def)

text \<open>
  What the normalizer does on a decorated host name: for a host name \<open>h\<close> that is valid
  once lower-cased and does not itself start with \<open>www.\<close>, behind an optional
  lower-case protocol, any number of slashes and an optional lower-case \<open>www.\<close>, and
  before an optional port and an optional path, the result is \<open>h\<close> in lower case.
\<close>

lemma normalizeDomain_strips_decorations:
  assumes valid: "isValidDomain (toLowerCase h)"
    and noWww: "\<not> startsWith h ''www.''"
    and proto: "proto = [] \<or> proto = ''http://'' \<or> proto = ''https://''"
    and www: "w = [] \<or> w = ''www.''"
    and port: "port = [] \<or> (hd port = CHR '':'' \<and> CHR ''/'' \<notin> set port)"
    and path: "path = [] \<or> hd path = CHR ''/''"
  shows "normalizeDomain (proto @ replicate k CHR ''/'' @ w @ h @ port @ path)
           = Inr (toLowerCase h)"
proof -
  have chars: "isAlnum (lowerChar x) \<or> lowerChar x = CHR ''-'' \<or> lowerChar x = CHR ''.''"
    if "x \<in> set h" for x
    using isValidDomain_chars[OF valid, of "lowerChar x"] that by (simp add: toLowerCase_def)
  have noSlash: "CHR ''/'' \<notin> set h"
    using chars[of "CHR ''/''"] not_host_chars(1) by (auto simp: lowerChar_fixed)
  have noColon: "CHR '':'' \<notin> set h"
    using chars[of "CHR '':''"] not_host_chars(2) by (auto simp: lowerChar_fixed)
  have noSpace: "\<forall>x \<in> set (toLowerCase h). \<not> isSpace x"
    using isValidDomain_chars[OF valid] space_not_host_char by blast
  have dot: "CHR ''.'' \<in> set h"
  proof -
    from isValidDomain_has_dot[OF valid] obtain x where x: "x \<in> set h" "lowerChar x = CHR ''.''"
      by (auto simp: toLowerCase_def)
    from lowerChar_dot[OF x(2)] x(1) show ?thesis by simp
  qed
  then have hne: "h \<noteq> []" by auto
  let ?rest = "replicate k CHR ''/'' @ w @ h @ port @ path"
  have hostFirst: "hd (w @ h @ port @ path) \<noteq> CHR ''/''" "w @ h @ port @ path \<noteq> []"
    using www hne noSlash by (cases h; auto)+
  have s2: "dropWhile (\<lambda>c. c = CHR ''/'') ?rest = w @ h @ port @ path"
    using hostFirst
    by (simp only: dropWhile_replicate_append[of "\<lambda>c. c = CHR ''/''", OF refl])
       (cases "w @ h @ port @ path"; simp)
  have noProto: "\<not> startsWith ?rest p" if p: "p = ''http://'' \<or> p = ''https://''" for p
  proof
    assume sw: "startsWith ?rest p"
    then have tk: "take (length p) ?rest = p" by (simp only: startsWith_def)
    have "take (length p) ?rest @ drop (length p) ?rest = p @ drop (length p) ?rest"
      by (rule arg_cong[OF tk, of "\<lambda>t. t @ drop (length p) ?rest"])
    then have eq: "?rest = p @ drop (length p) ?rest"
      by (simp only: append_take_drop_id)
    have k0: "k = 0" using sw p by (cases k) (auto simp: startsWith_def)
    have w0: "w = []" using sw p www k0 by (auto simp: startsWith_def)
    have hrest: "?rest = h @ port @ path" by (simp add: k0 w0)
    have nc: "\<And>x. x \<in> set h \<Longrightarrow> x \<noteq> CHR '':''" using noColon by auto
    have t1: "takeWhile (\<lambda>x. x \<noteq> CHR '':'') ?rest
                = h @ takeWhile (\<lambda>x. x \<noteq> CHR '':'') (port @ path)"
      unfolding hrest by (rule takeWhile_append2[OF nc])
    have t2: "takeWhile (\<lambda>x. x \<noteq> CHR '':'') ?rest
                = takeWhile (\<lambda>x. x \<noteq> CHR '':'') (p @ drop (length p) ?rest)"
      by (rule arg_cong[OF eq])
    have t3: "takeWhile (\<lambda>x. x \<noteq> CHR '':'') (p @ drop (length p) ?rest) = ''http''
                 \<or> takeWhile (\<lambda>x. x \<noteq> CHR '':'') (p @ drop (length p) ?rest) = ''https''"
      using p by auto
    from t1 t2 t3 have "h @ takeWhile (\<lambda>x. x \<noteq> CHR '':'') (port @ path) = ''http''
        \<or> h @ takeWhile (\<lambda>x. x \<noteq> CHR '':'') (port @ path) = ''https''" by simp
    then have "set h \<subseteq> set ''http'' \<or> set h \<subseteq> set ''https''"
      by (metis set_append Un_upper1)
    with dot show False by auto
  qed
  have s1: "stripProtocol (proto @ ?rest) = ?rest"
    using proto
  proof (elim disjE)
    assume "proto = []"
    have "stripProtocol ?rest = ?rest"
      by (rule stripProtocol_none) (rule noProto, simp)+
    with \<open>proto = []\<close> show ?thesis by (simp only: append_Nil)
  next
    assume "proto = ''http://''"
    then show ?thesis by (simp only: stripProtocol_http)
  next
    assume "proto = ''https://''"
    then show ?thesis by (simp only: stripProtocol_https)
  qed
  have s3: "hd (splitOn CHR ''/'' (w @ h @ port @ path)) = w @ h @ port"
  proof -
    have "CHR ''/'' \<notin> set (w @ h @ port)" using www noSlash port by auto
    from takeWhile_until[OF this path] show ?thesis by (simp add: hd_splitOn)
  qed
  have s4: "hd (splitOn CHR '':'' (w @ h @ port)) = w @ h"
  proof -
    have "CHR '':'' \<notin> set (w @ h)" using www noColon by auto
    moreover have "port = [] \<or> hd port = CHR '':''" using port by blast
    ultimately show ?thesis using takeWhile_until[of "CHR '':''" "w @ h" port] by (simp add: hd_splitOn)
  qed
  have s5: "stripWww (w @ h) = h"
    using www noWww by (auto simp: stripWww_def startsWith_def)
  have s6: "trim (toLowerCase h) = toLowerCase h"
    using noSpace by (rule trim_no_space)
  show ?thesis
    unfolding normalizeDomain_def Let_def s1 s2 s3 s4 s5 s6 using valid by simp
qed

lemma normalizeDomain_decorated_example:
  "normalizeDomain ''https://www.Shop.com/foo?x=1'' = Inr ''shop.com''"
proof -
  have v: "isValidDomain (toLowerCase ''Shop.com'')" by code_simp
  have l: "toLowerCase ''Shop.com'' = ''shop.com''" by code_simp
  have n: "\<not> startsWith ''Shop.com'' ''www.''" by code_simp
  from normalizeDomain_strips_decorations[OF v n, of "''https://''" "''www.''" "[]" "''/foo?x=1''" 0]
  show ?thesis by (simp add: l)
qed

lemma normalizeDomain_port_example:
  "normalizeDomain ''http://www.shop.com:8080/cart'' = Inr ''shop.com''"
  by code_simp

text \<open>
  C4. The normalizer removes the \<open>www.\<close> prefix before it lower-cases its input, with
  a pattern that matches lower-case letters only: on the input \<open>WWW.Shop.com\<close> the
  prefix is not removed, and the result is \<open>www.shop.com\<close>, not the bare host name
  \<open>shop.com\<close>.
\<close>

theorem normalizeDomain_keeps_uppercase_www:
  "normalizeDomain ''WWW.Shop.com'' = Inr ''www.shop.com''"
  by code_simp

end
